theory Spec2Isabelle
  imports Main "HOL-Library.Sublist"
begin

section \<open>Binary String Toolkit: \<^verbatim>\<open>bstrings.c\<close>\<close>

text \<open>
  A shallow embedding of \<^verbatim>\<open>src/bstrings.c\<close>. Standard output and standard error are
  strings that the printing functions extend on the right. A \<^verbatim>\<open>char\<close> of the C
  program is a \<^typ>\<open>char\<close> (one byte); an \<^verbatim>\<open>int\<close> is an \<^typ>\<open>int\<close>, with the
  32-bit range checked where the program computes a value that can leave it.
\<close>

subsection \<open>Characters and machine integers\<close>

abbreviation bslash :: char where "bslash \<equiv> CHR 0x5C"
abbreviation dquote :: char where "dquote \<equiv> CHR 0x22"
abbreviation newline :: char where "newline \<equiv> CHR 0x0A"

text \<open>
  Behaviour that C leaves undefined is a value of the model: the run stops with a
  \<open>fault\<close> in place of a result.
\<close>

datatype fault =
    SignedOverflow  \<comment> \<open>an \<^verbatim>\<open>int\<close> expression whose value is not representable\<close>
  | OutOfBounds     \<comment> \<open>an access outside the buffer, or through a \<^verbatim>\<open>NULL\<close> pointer\<close>

definition INT_MIN :: int where "INT_MIN = - (2 ^ 31)"
definition INT_MAX :: int where "INT_MAX = 2 ^ 31 - 1"

definition int_mul :: "int \<Rightarrow> int \<Rightarrow> fault + int" where
  \<comment> \<open>\<^verbatim>\<open>a * b\<close> on \<^verbatim>\<open>int\<close>\<close>
  "int_mul a b = (if INT_MIN \<le> a * b \<and> a * b \<le> INT_MAX then Inr (a * b) else Inl SignedOverflow)"

definition int_rem :: "int \<Rightarrow> int \<Rightarrow> int" where
  \<comment> \<open>\<^verbatim>\<open>a % b\<close> for \<open>b \<noteq> 0\<close>: the quotient is truncated towards zero, so the
      remainder has the sign of \<open>a\<close>\<close>
  "int_rem a b = sgn a * (\<bar>a\<bar> mod \<bar>b\<bar>)"

definition char_to_int :: "bool \<Rightarrow> char \<Rightarrow> int" where
  \<comment> \<open>\<^verbatim>\<open>c = ptr_char_array[i]\<close>: the conversion of a \<^verbatim>\<open>char\<close> to \<^verbatim>\<open>int\<close>. Whether plain
      \<^verbatim>\<open>char\<close> is signed is fixed by the platform; the first argument says so.\<close>
  "char_to_int char_signed ch =
     (if char_signed \<and> 128 \<le> (of_char ch :: int) then of_char ch - 256 else of_char ch)"

definition EOF :: int where "EOF = - 1"

subsection \<open>The formatter \<^verbatim>\<open>output_hex_escaped_string\<close>\<close>

text \<open>
  The two global flags. Each is an \<^verbatim>\<open>int\<close> that only ever holds 0 or 1 (its static
  initial value, or what option parsing stores), so it is a \<^typ>\<open>bool\<close> here.
\<close>

record flags =
  verbose_flag :: bool
  interactive_flag :: bool

record fstate =
  ai :: int
  invalidhexchar :: int
  stdout :: string

definition putchar :: "int \<Rightarrow> fstate \<Rightarrow> fstate" where
  \<comment> \<open>\<^verbatim>\<open>putchar(c)\<close> writes \<open>c\<close> converted to \<^verbatim>\<open>unsigned char\<close>\<close>
  "putchar c s = s\<lparr>stdout := stdout s @ [char_of c]\<rparr>"

definition printf :: "string \<Rightarrow> fstate \<Rightarrow> fstate" where
  "printf str s = s\<lparr>stdout := stdout s @ str\<rparr>"

definition is_hex_digit :: "int \<Rightarrow> bool" where
  \<comment> \<open>\<^verbatim>\<open>case 48 ... 57: case 65 ... 70: case 97 ... 102:\<close>\<close>
  "is_hex_digit c \<longleftrightarrow> (48 \<le> c \<and> c \<le> 57) \<or> (65 \<le> c \<and> c \<le> 70) \<or> (97 \<le> c \<and> c \<le> 102)"

definition wrap_line :: "int \<Rightarrow> fstate \<Rightarrow> fstate" where
  \<comment> \<open>the \<^verbatim>\<open>switch (*output_lang)\<close> taken at the end of a line\<close>
  "wrap_line output_lang s =
     (if output_lang = 1 then
        (let s1 = (if ai s \<noteq> 0 then putchar 34 s else s);
             s2 = (if ai s1 \<noteq> 0 then putchar 10 s1 else s1)
         in putchar 34 s2)
      else if output_lang = 2 then
        (let s1 = (if ai s \<noteq> 0 then putchar 34 s else s);
             s2 = (if ai s1 \<noteq> 0 then putchar 10 s1 else s1)
         in putchar 34 (printf ''buffer += '' s2))
      else (if ai s \<noteq> 0 then putchar 10 s else s))"

definition loop_body :: "bool \<Rightarrow> int \<Rightarrow> int \<Rightarrow> char \<Rightarrow> fstate \<Rightarrow> fault + fstate" where
  \<comment> \<open>the body of the \<^verbatim>\<open>for\<close> loop, for the byte \<open>ch\<close> read from the buffer. The divisor
      \<^verbatim>\<open>string_width*2\<close> is not zero when it is representable, since \<^verbatim>\<open>string_width != 0\<close>.\<close>
  "loop_body char_signed output_lang string_width ch s =
     (let c = char_to_int char_signed ch in
      if is_hex_digit c then
        (if int_rem (ai s) 2 = 0 then
           (if string_width \<noteq> 0 then
              (case int_mul string_width 2 of
                 Inl e \<Rightarrow> Inl e
               | Inr d \<Rightarrow>
                   (let s1 = (if int_rem (ai s) d = 0 then wrap_line output_lang s else s);
                        s2 = putchar c (putchar 120 (putchar 92 s1))
                    in Inr (s2\<lparr>ai := ai s2 + 1\<rparr>)))
            else
              (let s2 = putchar c (putchar 120 (putchar 92 s))
               in Inr (s2\<lparr>ai := ai s2 + 1\<rparr>)))
         else
           (let s2 = putchar c s in Inr (s2\<lparr>ai := ai s2 + 1\<rparr>)))
      else if c = EOF then Inr s
      else if c = 10 then Inr s
      else if c = 0 then Inr s
      else Inr (s\<lparr>invalidhexchar := invalidhexchar s + 1\<rparr>))"

function scan ::
  "bool \<Rightarrow> char list \<Rightarrow> int \<Rightarrow> int \<Rightarrow> int \<Rightarrow> int \<Rightarrow> fstate \<Rightarrow> fault + fstate" where
  "scan char_signed ptr_char_array array_size output_lang string_width i s =
     (if i < array_size then
        (if 0 \<le> i \<and> nat i < length ptr_char_array then
           (case loop_body char_signed output_lang string_width (ptr_char_array ! nat i) s of
              Inl e \<Rightarrow> Inl e
            | Inr s' \<Rightarrow> scan char_signed ptr_char_array array_size output_lang string_width (i + 1) s')
         else Inl OutOfBounds)
      else Inr s)"
  by pat_completeness auto
termination
  by (relation "measure (\<lambda>(sg, p, n, l, w, i, s). nat (n - i))") auto

declare scan.simps [simp del]

function decimal :: "nat \<Rightarrow> string" where
  "decimal n = (if n < 10 then [char_of (48 + n)] else decimal (n div 10) @ [char_of (48 + n mod 10)])"
  by pat_completeness auto
termination
  by (relation "measure id") auto

declare decimal.simps [simp del]

definition printf_d :: "int \<Rightarrow> string" where
  \<comment> \<open>the conversion \<^verbatim>\<open>%d\<close>\<close>
  "printf_d n = (if n < 0 then CHR ''-'' # decimal (nat (- n)) else decimal (nat n))"

definition warning :: "int \<Rightarrow> string" where
  "warning n = ''[-] Warning: '' @ printf_d n @ '' non-hexadecimal character(s) detected in input.'' @ [newline]"

definition output_hex_escaped_string ::
  "bool \<Rightarrow> flags \<Rightarrow> char list \<Rightarrow> int \<Rightarrow> int \<Rightarrow> int \<Rightarrow> string \<Rightarrow> fault + fstate" where
  \<comment> \<open>the last argument is what standard output holds when the function is called\<close>
  "output_hex_escaped_string char_signed fl ptr_char_array array_size output_lang string_width out =
     (let s0 = \<lparr>ai = 0, invalidhexchar = 0, stdout = out\<rparr>;
          s1 = (if interactive_flag fl then putchar 10 s0 else s0);
          s2 = (if verbose_flag fl then
                  (if output_lang = 1 then printf (''unsigned char buffer[] ='' @ [newline]) s1
                   else if output_lang = 2 then printf (''buffer =  '' @ [dquote, dquote, newline]) s1
                   else s1)
                else s1)
      in case scan char_signed ptr_char_array array_size output_lang string_width 0 s2 of
           Inl e \<Rightarrow> Inl e
         | Inr s3 \<Rightarrow>
             (let s4 = (if output_lang = 1 then putchar 34 s3
                        else if output_lang = 2 then putchar 34 s3 else s3);
                  s5 = putchar 10 s4
              in Inr (if verbose_flag fl \<and> invalidhexchar s5 > 0
                      then printf (warning (invalidhexchar s5)) s5 else s5)))"

subsection \<open>The process: streams, exits, the environment\<close>

record streams =
  sout :: string  \<comment> \<open>standard output\<close>
  serr :: string  \<comment> \<open>standard error\<close>

datatype halt =
    Exit int streams         \<comment> \<open>\<^verbatim>\<open>exit(status)\<close>, or \<^verbatim>\<open>return\<close> from \<^verbatim>\<open>main\<close>\<close>
  | Undefined fault streams  \<comment> \<open>the run reached undefined behaviour\<close>

definition EXIT_SUCCESS :: int where "EXIT_SUCCESS = 0"
definition EXIT_FAILURE :: int where "EXIT_FAILURE = 1"

definition print_out :: "string \<Rightarrow> streams \<Rightarrow> streams" where
  "print_out str st = st\<lparr>sout := sout st @ str\<rparr>"

definition print_err :: "string \<Rightarrow> streams \<Rightarrow> streams" where
  "print_err str st = st\<lparr>serr := serr st @ str\<rparr>"

text \<open>
  What the program takes from outside: the platform's \<^verbatim>\<open>char\<close>, the allocator, the
  input stream, the files that \<^verbatim>\<open>fopen\<close> can open, the bytes that memory holds before
  the program writes it, the C library's \<^verbatim>\<open>atoi\<close>, and the three strings of
  \<^verbatim>\<open>include/version.h\<close>.
\<close>

record env =
  char_signed :: bool
  heap :: "int \<Rightarrow> bool"            \<comment> \<open>whether a request for so many bytes succeeds\<close>
  stdin :: string                   \<comment> \<open>the bytes \<^verbatim>\<open>getchar\<close> returns before \<^verbatim>\<open>EOF\<close>\<close>
  files :: "string \<Rightarrow> string option"  \<comment> \<open>\<open>None\<close>: \<^verbatim>\<open>fopen(path, "r")\<close> returns \<^verbatim>\<open>NULL\<close>\<close>
  junk :: "nat \<Rightarrow> char"             \<comment> \<open>what a byte of a block reads as before it is written\<close>
  atoi :: "string \<Rightarrow> int"
  program_version :: string
  program_build :: "string option"  \<comment> \<open>\<open>None\<close>: \<^verbatim>\<open>program_build == NULL\<close>\<close>
  program_build_time :: string

definition int_add :: "int \<Rightarrow> int \<Rightarrow> fault + int" where
  \<comment> \<open>\<^verbatim>\<open>a + b\<close> on \<^verbatim>\<open>int\<close>\<close>
  "int_add a b = (if INT_MIN \<le> a + b \<and> a + b \<le> INT_MAX then Inr (a + b) else Inl SignedOverflow)"

subsection \<open>Heap blocks\<close>

text \<open>
  A block is the list of its bytes; \<open>None\<close> is a byte that was never written. A store
  outside the block is undefined in C: it is a fault, as a read outside a buffer is.
\<close>

record region =
  cells :: "char option list"

definition store :: "region \<Rightarrow> int \<Rightarrow> char \<Rightarrow> fault + region" where
  \<comment> \<open>\<^verbatim>\<open>ptr[i] = c\<close>\<close>
  "store ptr i c =
     (if 0 \<le> i \<and> nat i < length (cells ptr)
      then Inr (ptr\<lparr>cells := (cells ptr)[nat i := Some c]\<rparr>)
      else Inl OutOfBounds)"

definition allocate_dynamic_memory :: "env \<Rightarrow> int \<Rightarrow> streams \<Rightarrow> halt + region" where
  "allocate_dynamic_memory e alloc_size st =
     (if heap e alloc_size then Inr \<lparr>cells = replicate (nat alloc_size) None\<rparr>
      else Inl (Exit EXIT_FAILURE
                 (print_out (printf_d alloc_size @ '' byte(s) memory allocation error.'') st)))"

definition change_dynamic_memory :: "env \<Rightarrow> region \<Rightarrow> int \<Rightarrow> streams \<Rightarrow> halt + region" where
  \<comment> \<open>\<^verbatim>\<open>realloc\<close> keeps the bytes up to the smaller of the two sizes\<close>
  "change_dynamic_memory e ptr new_size st =
     (if heap e new_size then
        Inr (ptr\<lparr>cells := take (nat new_size) (cells ptr)
                            @ replicate (nat new_size - length (cells ptr)) None\<rparr>)
      else Inl (Exit EXIT_FAILURE
                 (print_out (printf_d new_size @ '' byte(s) memory re-allocation error.'') st)))"

definition contents :: "env \<Rightarrow> region option \<Rightarrow> char list" where
  \<comment> \<open>the bytes a reader finds at \<^verbatim>\<open>ptr[0]\<close>, \<^verbatim>\<open>ptr[1]\<close>, ... inside the block; a
      \<^verbatim>\<open>NULL\<close> pointer has none\<close>
  "contents e ptr =
     (case ptr of
        None \<Rightarrow> []
      | Some r \<Rightarrow> map (\<lambda>i. case cells r ! i of Some c \<Rightarrow> c | None \<Rightarrow> junk e i) [0..<length (cells r)])"

subsection \<open>The bad-character generator \<^verbatim>\<open>generate_badchar_sequence\<close>\<close>

definition hex_digit_char :: "nat \<Rightarrow> char" where
  "hex_digit_char k = (if k < 10 then char_of (48 + k) else char_of (87 + k))"

function lower_hex :: "nat \<Rightarrow> string" where
  "lower_hex n = (if n < 16 then [hex_digit_char n] else lower_hex (n div 16) @ [hex_digit_char (n mod 16)])"
  by pat_completeness auto
termination
  by (relation "measure id") auto

declare lower_hex.simps [simp del]

definition printf_02x :: "nat \<Rightarrow> string" where
  \<comment> \<open>the conversion \<^verbatim>\<open>%02x\<close>: lower-case hexadecimal, padded with zeros to two digits\<close>
  "printf_02x n = replicate (2 - length (lower_hex n)) (CHR ''0'') @ lower_hex n"

fun store_string :: "region \<Rightarrow> int \<Rightarrow> string \<Rightarrow> fault + region" where
  "store_string ptr off [] = Inr ptr"
| "store_string ptr off (c # cs) =
     (case store ptr off c of
        Inl f \<Rightarrow> Inl f
      | Inr ptr' \<Rightarrow> store_string ptr' (off + 1) cs)"

definition sprintf_02x :: "region \<Rightarrow> int \<Rightarrow> nat \<Rightarrow> fault + region \<times> int" where
  \<comment> \<open>\<^verbatim>\<open>sprintf(ptr + off, "%02x", i)\<close> stores the digits and a terminating null byte, and
      returns the number of digits\<close>
  "sprintf_02x ptr off i =
     (case store_string ptr off (printf_02x i @ [CHR 0x00]) of
        Inl f \<Rightarrow> Inl f
      | Inr ptr' \<Rightarrow> Inr (ptr', int (length (printf_02x i))))"

definition BADCHAR_HEX_SEQLEN :: int where "BADCHAR_HEX_SEQLEN = 510"

function badchar_loop :: "int \<Rightarrow> int \<Rightarrow> region \<Rightarrow> fault + region" where
  "badchar_loop i len ptr =
     (if i < 256 then
        (case sprintf_02x ptr len (nat i) of
           Inl f \<Rightarrow> Inl f
         | Inr (ptr', k) \<Rightarrow> badchar_loop (i + 1) (len + k) ptr')
      else Inr ptr)"
  by pat_completeness auto
termination
  by (relation "measure (\<lambda>(i, len, ptr). nat (256 - i))") auto

declare badchar_loop.simps [simp del]

definition generate_badchar_sequence :: "env \<Rightarrow> streams \<Rightarrow> halt + region" where
  "generate_badchar_sequence e st =
     (case allocate_dynamic_memory e (1 * BADCHAR_HEX_SEQLEN) st of
        Inl h \<Rightarrow> Inl h
      | Inr ptr_badchar_array \<Rightarrow>
          (case badchar_loop 1 0 ptr_badchar_array of
             Inl f \<Rightarrow> Inl (Undefined f st)
           | Inr ptr \<Rightarrow> Inr ptr))"

subsection \<open>The input collector\<close>

fun store_input ::
  "env \<Rightarrow> string \<Rightarrow> region \<Rightarrow> int \<Rightarrow> int \<Rightarrow> streams \<Rightarrow> halt + region \<times> int" where
  \<comment> \<open>the \<^verbatim>\<open>while\<close> loop of \<^verbatim>\<open>read_and_store_char_input\<close>, over the bytes still to come\<close>
  "store_input e [] ptr array_size i st = Inr (ptr, array_size)"
| "store_input e (c # cs) ptr array_size i st =
     (case store ptr i c of
        Inl f \<Rightarrow> Inl (Undefined f st)
      | Inr ptr1 \<Rightarrow>
          (case int_add array_size 1 of
             Inl f \<Rightarrow> Inl (Undefined f st)
           | Inr n \<Rightarrow>
               (case change_dynamic_memory e ptr1 (1 * n) st of
                  Inl h \<Rightarrow> Inl h
                | Inr ptr2 \<Rightarrow> store_input e cs ptr2 n (i + 1) st)))"

definition read_and_store_char_input ::
  "env \<Rightarrow> flags \<Rightarrow> int \<Rightarrow> streams \<Rightarrow> halt + region \<times> int \<times> streams" where
  "read_and_store_char_input e fl array_size st =
     (let st1 = (if interactive_flag fl
                 then print_out (''[+] Hit CTRL-D twice to terminate input.'' @ [newline]) st
                 else st)
      in case allocate_dynamic_memory e 1 st1 of
           Inl h \<Rightarrow> Inl h
         | Inr ptr \<Rightarrow>
             (case store_input e (stdin e) ptr array_size 0 st1 of
                Inl h \<Rightarrow> Inl h
              | Inr (ptr', n) \<Rightarrow> Inr (ptr', n, st1)))"

fun file_loop ::
  "env \<Rightarrow> int \<Rightarrow> string \<Rightarrow> region option \<Rightarrow> int \<Rightarrow> int \<Rightarrow> streams
     \<Rightarrow> halt + region option \<times> int" where
  \<comment> \<open>the first \<^verbatim>\<open>while\<close> loop of \<^verbatim>\<open>read_from_file\<close>. A store through a \<^verbatim>\<open>NULL\<close>
      pointer is undefined; the callers allocate first.\<close>
  "file_loop e mode [] ptr array_size i st = Inr (ptr, array_size)"
| "file_loop e mode (c # cs) ptr array_size i st =
     (if mode = 1 then
        (case ptr of
           None \<Rightarrow> Inl (Undefined OutOfBounds st)
         | Some r \<Rightarrow>
             (case store r i c of
                Inl f \<Rightarrow> Inl (Undefined f st)
              | Inr ptr1 \<Rightarrow>
                  (case int_add array_size 1 of
                     Inl f \<Rightarrow> Inl (Undefined f st)
                   | Inr n \<Rightarrow>
                       (case change_dynamic_memory e ptr1 (1 * n) st of
                          Inl h \<Rightarrow> Inl h
                        | Inr ptr2 \<Rightarrow> file_loop e mode cs (Some ptr2) n (i + 1) st))))
      else if mode = 2 then
        (case ptr of
           None \<Rightarrow> Inl (Undefined OutOfBounds st)
         | Some r \<Rightarrow>
             (let xc = take 2 (printf_02x (of_char c))
              in case store r i (xc ! 0) of
                   Inl f \<Rightarrow> Inl (Undefined f st)
                 | Inr ptr0 \<Rightarrow>
                     (case store ptr0 (i + 1) (xc ! 1) of
                        Inl f \<Rightarrow> Inl (Undefined f st)
                      | Inr ptr1 \<Rightarrow>
                          (case int_add array_size 2 of
                             Inl f \<Rightarrow> Inl (Undefined f st)
                           | Inr n \<Rightarrow>
                               (case change_dynamic_memory e ptr1 (1 * n) st of
                                  Inl h \<Rightarrow> Inl h
                                | Inr ptr2 \<Rightarrow>
                                    file_loop e mode cs (Some ptr2) n (i + 2) st)))))
      else file_loop e mode cs ptr array_size i st)"

definition read_from_file ::
  "env \<Rightarrow> string \<Rightarrow> int \<Rightarrow> int \<Rightarrow> streams \<Rightarrow> halt + region option \<times> int \<times> streams" where
  \<comment> \<open>\<open>array_size\<close> is the value behind the pointer; mode 0 is called with \<^verbatim>\<open>NULL\<close> and
      does not use it\<close>
  "read_from_file e filename array_size mode st =
     (case files e filename of
        None \<Rightarrow>
          Inl (Exit EXIT_FAILURE
                (print_out (''Error: input filename '' @ [dquote] @ filename @ [dquote]
                            @ '' cannot be read.'' @ [newline]) st))
      | Some bytes \<Rightarrow>
          (if mode \<ge> 1 then
             (case (if mode = 1 then
                      (case allocate_dynamic_memory e 1 st of
                         Inl h \<Rightarrow> Inl h
                       | Inr r \<Rightarrow> Inr (Some r, array_size))
                    else if mode = 2 then
                      (case allocate_dynamic_memory e (1 * 2) st of
                         Inl h \<Rightarrow> Inl h
                       | Inr r \<Rightarrow>
                           (case int_add array_size 1 of
                              Inl f \<Rightarrow> Inl (Undefined f st)
                            | Inr n \<Rightarrow> Inr (Some r, n)))
                    else Inr (None, array_size)) of
                Inl h \<Rightarrow> Inl h
              | Inr (ptr, n) \<Rightarrow>
                  (case file_loop e mode bytes ptr n 0 st of
                     Inl h \<Rightarrow> Inl h
                   | Inr (ptr', n') \<Rightarrow> Inr (ptr', n', st)))
           else
             Inr (None, array_size,
                  print_out (concat (map (\<lambda>c. printf_02x (of_char c)) bytes)) st)))"

subsection \<open>Usage and version texts\<close>

definition print_usage :: "string \<Rightarrow> string" where
  \<comment> \<open>the text \<^verbatim>\<open>print_usage(stream, program_name)\<close> writes to \<open>stream\<close>\<close>
  "print_usage program_name =
     ''Usage: '' @ program_name @ '' [OPTION]...'' @ [newline]
     @ '' Convert input to specified binary string format.'' @ [newline] @ [newline]
     @ '' At least one of the below options must be given:'' @ [newline]
     @ ''    -D, --dump-file=FILE    Dump content of file FILE in hexadecimal format'' @ [newline]
     @ ''    -x, --hex-escape        Escape input hexadecimal string'' @ [newline]
     @ ''    -b, --gen-badchar       Generate a bad character sequence string'' @ [newline]
     @ ''    '' @ [newline]
     @ '' The below switches are optional:'' @ [newline]
     @ ''    -f, --file=FILE         Read input from file FILE instead of stdin'' @ [newline]
     @ ''    -w, --width=bytes       Break binary strings to specified length in bytes'' @ [newline]
     @ ''    -s, --syntax=LANG       Syntax of the binary string output'' @ [newline]
     @ ''    -h, --help              Display this help'' @ [newline]
     @ ''       --interactive        Enter interactive mode'' @ [newline]
     @ ''       --verbose            Enable verbose output'' @ [newline]
     @ ''       --version            Print version information'' @ [newline]
     @ ''    '' @ [newline]"

definition print_version :: "env \<Rightarrow> string \<Rightarrow> string" where
  "print_version e program_name =
     ''Binary String Toolkit ('' @ program_version e @ '')'' @ [newline]
     @ ''Copyright (C) 2018 Nicolas Chabbey'' @ [newline]
     @ ''This program is free software: you can redistribute it and/or modify it'' @ [newline]
     @ ''under the terms of the GNU General Public License as published by the'' @ [newline]
     @ ''Free Software Foundation, either version 2 of the License, or '' @ [newline]
     @ ''(at your option) any later version.'' @ [newline]
     @ ''This program has absolutely no warranty.'' @ [newline]
     @ ''Source code, bug reporting and documentation available at:'' @ [newline]
     @ ''<https://github.com/e3prom/bst>'' @ [newline]
     @ (case program_build e of
          None \<Rightarrow> []
        | Some b \<Rightarrow> ''Git Build '' @ b @ [newline] @ ''Compiled the '' @ program_build_time e @ [newline])
     @ ''For help enter '' @ [dquote] @ program_name @ '' --help'' @ [dquote] @ [newline]"

subsection \<open>\<^verbatim>\<open>main\<close>\<close>

text \<open>
  The local variables of \<^verbatim>\<open>main\<close>. The declaration
  \<^verbatim>\<open>bool doOutputHexEscapedString, doOutputBadCharString, doHexDumpFile, doReadFromFile,
  doLimitBinaryStringWidth = false;\<close> initialises the last variable only, and the two
  character arrays are not initialised: what these six hold at first is an argument of
  the model. A \<^verbatim>\<open>bool\<close> field says whether the variable compares equal to \<^verbatim>\<open>true\<close>.
\<close>

record locals =
  doOutputHexEscapedString :: bool
  doOutputBadCharString :: bool
  doHexDumpFile :: bool
  doReadFromFile :: bool
  doLimitBinaryStringWidth :: bool
  fread_filename :: string
  output_lang :: int
  arg_lang :: string
  string_width :: int

definition MAX_FILENAME_LENGTH :: nat where "MAX_FILENAME_LENGTH = 512"
definition MAX_ARGUMENT_LENGTH :: nat where "MAX_ARGUMENT_LENGTH = 255"

definition snprintf_s :: "nat \<Rightarrow> string \<Rightarrow> string" where
  \<comment> \<open>\<^verbatim>\<open>snprintf(dst, n, "%s", src)\<close> leaves at most \<open>n - 1\<close> characters in \<open>dst\<close>\<close>
  "snprintf_s n src = take (n - 1) src"

text \<open>
  One call of \<^verbatim>\<open>getopt_long\<close> that does not return \<open>-1\<close>. For the long options
  \<^verbatim>\<open>--verbose\<close>, \<^verbatim>\<open>--quiet\<close> and \<^verbatim>\<open>--interactive\<close> the library stores the value itself
  and returns 0. Otherwise it returns a code, with \<^verbatim>\<open>optarg\<close> (\<open>None\<close> for \<^verbatim>\<open>NULL\<close>) and
  \<^verbatim>\<open>optopt\<close>.
\<close>

datatype getopt_call =
    Stores_verbose bool
  | Stores_interactive bool
  | Returns int "string option" char

definition option_case ::
  "env \<Rightarrow> string \<Rightarrow> getopt_call \<Rightarrow> flags \<times> locals \<times> streams \<Rightarrow> halt + flags \<times> locals \<times> streams" where
  \<comment> \<open>the body of the \<^verbatim>\<open>while\<close> loop over \<^verbatim>\<open>getopt_long\<close>: the \<^verbatim>\<open>switch (opt)\<close>\<close>
  "option_case e argv0 call x =
     (case x of (fl, lv, st) \<Rightarrow>
      (case call of
         Stores_verbose v \<Rightarrow> Inr (fl\<lparr>verbose_flag := v\<rparr>, lv, st)
       | Stores_interactive v \<Rightarrow> Inr (fl\<lparr>interactive_flag := v\<rparr>, lv, st)
       | Returns opt optarg optopt \<Rightarrow>
          (if opt = 0 then Inr (fl, lv, st)
           else if opt = 1 then Inr (fl, lv, st)
           else if opt = of_char (CHR '':'') then
             Inl (Exit EXIT_FAILURE
                   (print_err (argv0 @ '': option '' @ [CHR 0x60] @ ''-'' @ [optopt, CHR 0x27]
                               @ '' require an argument.'' @ [newline]) st))
           else if opt = of_char (CHR ''@'') then
             Inl (Exit EXIT_SUCCESS (print_err (print_version e argv0) st))
           else if opt = of_char (CHR ''v'') then Inr (fl\<lparr>verbose_flag := True\<rparr>, lv, st)
           else if opt = of_char (CHR ''x'') then Inr (fl, lv\<lparr>doOutputHexEscapedString := True\<rparr>, st)
           else if opt = of_char (CHR ''b'') then Inr (fl, lv\<lparr>doOutputBadCharString := True\<rparr>, st)
           else if opt = of_char (CHR ''D'') then
             (let lv1 = lv\<lparr>doHexDumpFile := True\<rparr>
              in Inr (fl, (case optarg of
                             None \<Rightarrow> lv1
                           | Some a \<Rightarrow> lv1\<lparr>fread_filename := snprintf_s MAX_FILENAME_LENGTH a\<rparr>), st))
           else if opt = of_char (CHR ''f'') then
             (let lv1 = lv\<lparr>doReadFromFile := True\<rparr>
              in Inr (fl, (case optarg of
                             None \<Rightarrow> lv1
                           | Some a \<Rightarrow> lv1\<lparr>fread_filename := snprintf_s MAX_FILENAME_LENGTH a\<rparr>), st))
           else if opt = of_char (CHR ''s'') then
             (let lv1 = (case optarg of
                           None \<Rightarrow> lv
                         | Some a \<Rightarrow> lv\<lparr>arg_lang := snprintf_s MAX_ARGUMENT_LENGTH a\<rparr>)
              in Inr (fl, (if arg_lang lv1 = ''c'' then lv1\<lparr>output_lang := 1\<rparr>
                           else if arg_lang lv1 = ''python'' then lv1\<lparr>output_lang := 2\<rparr>
                           else lv1), st))
           else if opt = of_char (CHR ''w'') then
             (let lv1 = lv\<lparr>doLimitBinaryStringWidth := True\<rparr>
              in Inr (fl, (case optarg of
                             None \<Rightarrow> lv1
                           | Some a \<Rightarrow> lv1\<lparr>string_width := atoi e a\<rparr>), st))
           else Inl (Exit EXIT_FAILURE (print_err (print_usage argv0) st)))))"

fun parse_options ::
  "env \<Rightarrow> string \<Rightarrow> getopt_call list \<Rightarrow> flags \<times> locals \<times> streams \<Rightarrow> halt + flags \<times> locals \<times> streams" where
  "parse_options e argv0 [] x = Inr x"
| "parse_options e argv0 (call # calls) x =
     (case option_case e argv0 call x of
        Inl h \<Rightarrow> Inl h
      | Inr x' \<Rightarrow> parse_options e argv0 calls x')"

definition width_notice :: "flags \<Rightarrow> locals \<Rightarrow> string \<Rightarrow> streams \<Rightarrow> streams" where
  \<comment> \<open>the two \<^verbatim>\<open>printf\<close> calls under \<^verbatim>\<open>if (verbose_flag == true)\<close>\<close>
  "width_notice fl lv headline st =
     (if verbose_flag fl then
        (let st1 = print_out (headline @ [newline]) st
         in if doLimitBinaryStringWidth lv
            then print_out (''[+] Binary string width is limited to '' @ printf_d (string_width lv)
                            @ '' bytes.'' @ [newline]) st1
            else st1)
      else st)"

definition collect_input ::
  "env \<Rightarrow> flags \<Rightarrow> locals \<Rightarrow> streams \<Rightarrow> halt + region option \<times> int \<times> streams" where
  \<comment> \<open>\<^verbatim>\<open>main\<close> under \<^verbatim>\<open>-x\<close>, up to the call of the formatter: \<^verbatim>\<open>int array_size = 1\<close> and the
      choice of the input source\<close>
  "collect_input e fl lv st =
     (let array_size = 1;
          st1 = width_notice fl lv ''[*] Convert hexadecimal input to an escaped binary string.'' st
      in if doHexDumpFile lv then read_from_file e (fread_filename lv) array_size 2 st1
         else if doReadFromFile lv then read_from_file e (fread_filename lv) array_size 1 st1
         else (case read_and_store_char_input e fl array_size st1 of
                 Inl h \<Rightarrow> Inl h
               | Inr (r, n, st2) \<Rightarrow> Inr (Some r, n, st2)))"

definition format_and_exit ::
  "env \<Rightarrow> flags \<Rightarrow> locals \<Rightarrow> region option \<Rightarrow> int \<Rightarrow> streams \<Rightarrow> halt" where
  \<comment> \<open>the call of \<^verbatim>\<open>output_hex_escaped_string\<close>, then \<^verbatim>\<open>free\<close> and \<^verbatim>\<open>exit(EXIT_SUCCESS)\<close>\<close>
  "format_and_exit e fl lv ptr_char_array array_size st =
     (case output_hex_escaped_string (char_signed e) fl (contents e ptr_char_array) array_size
             (output_lang lv) (string_width lv) (sout st) of
        Inl f \<Rightarrow> Undefined f st
      | Inr s \<Rightarrow> Exit EXIT_SUCCESS (st\<lparr>sout := stdout s\<rparr>))"

definition main ::
  "env \<Rightarrow> int \<Rightarrow> string \<Rightarrow> getopt_call list \<Rightarrow> int \<Rightarrow> locals \<Rightarrow> halt" where
  \<comment> \<open>\<open>calls\<close> are the calls of \<^verbatim>\<open>getopt_long\<close> in order, \<open>optind\<close> its index after the last
      one, and \<open>indeterminate\<close> gives the variables that are not initialised\<close>
  "main e argc argv0 calls optind indeterminate =
     (let lv0 = indeterminate\<lparr>doLimitBinaryStringWidth := False, output_lang := 0, string_width := 0\<rparr>;
          fl0 = \<lparr>verbose_flag = False, interactive_flag = False\<rparr>;
          st0 = \<lparr>sout = [], serr = []\<rparr>
      in case parse_options e argv0 calls (fl0, lv0, st0) of
           Inl h \<Rightarrow> h
         | Inr (fl, lv, st) \<Rightarrow>
             if optind < argc \<or> argc = 1 then Exit EXIT_SUCCESS (print_out (print_usage argv0) st)
             else if doOutputHexEscapedString lv then
               (case collect_input e fl lv st of
                  Inl h \<Rightarrow> h
                | Inr (ptr_char_array, array_size, st1) \<Rightarrow>
                    format_and_exit e fl lv ptr_char_array array_size st1)
             else if doHexDumpFile lv then
               (case read_from_file e (fread_filename lv) 0 0 st of
                  Inl h \<Rightarrow> h
                | Inr (p, n, st1) \<Rightarrow> Exit EXIT_SUCCESS st1)
             else if doOutputBadCharString lv then
               (let array_size = BADCHAR_HEX_SEQLEN;
                    st1 = width_notice fl lv ''[*] Generating bad character binary string.'' st
                in case generate_badchar_sequence e st1 of
                     Inl h \<Rightarrow> h
                   | Inr ptr_char_array \<Rightarrow>
                       format_and_exit e fl lv (Some ptr_char_array) array_size st1)
             else Exit 0 st)"

section \<open>What the specification speaks of\<close>

text \<open>
  The notions of the specification's sentences, each written from its words, to be
  compared with what the functions above compute.
\<close>

definition width_ok :: "int \<Rightarrow> bool" where
  \<comment> \<open>twice the wrap width is an \<^verbatim>\<open>int\<close>\<close>
  "width_ok w \<longleftrightarrow> INT_MIN \<le> w * 2 \<and> w * 2 \<le> INT_MAX"

definition hex_char :: "char \<Rightarrow> bool" where
  \<comment> \<open>a valid hex-digit character: 0-9, A-F, a-f\<close>
  "hex_char ch \<longleftrightarrow> ch \<in> set ''0123456789ABCDEFabcdef''"

definition hex_digits :: "bool \<Rightarrow> string \<Rightarrow> string" where
  \<comment> \<open>the bytes of a buffer that the formatter accepts as digits, in order\<close>
  "hex_digits sg buf = filter (\<lambda>ch. is_hex_digit (char_to_int sg ch)) buf"

definition ignored :: "int \<Rightarrow> bool" where
  \<comment> \<open>EOF, newline or null\<close>
  "ignored c \<longleftrightarrow> c = EOF \<or> c = 10 \<or> c = 0"

definition invalid_bytes :: "bool \<Rightarrow> string \<Rightarrow> string" where
  \<comment> \<open>the bytes that are neither hex digits nor EOF, newline or null\<close>
  "invalid_bytes sg buf =
     filter (\<lambda>ch. \<not> (is_hex_digit (char_to_int sg ch) \<or> ignored (char_to_int sg ch))) buf"

definition wrap_marker :: "int \<Rightarrow> bool \<Rightarrow> string" where
  \<comment> \<open>the wrap marker of a syntax: newline for plain; close-quote, newline, open-quote for
      C; close-quote, newline, \<^verbatim>\<open>buffer += "\<close> for Python; the close-quote and newline are
      left out before the first byte\<close>
  "wrap_marker lang first =
     (if lang = 1 then (if first then [] else [dquote, newline]) @ [dquote]
      else if lang = 2 then (if first then [] else [dquote, newline]) @ ''buffer += '' @ [dquote]
      else (if first then [] else [newline]))"

definition escaped :: "int \<Rightarrow> int \<Rightarrow> int \<Rightarrow> char \<Rightarrow> string" where
  \<comment> \<open>what the accepted digit \<open>d\<close> of index \<open>k\<close> adds to the output: a high nibble (\<open>k\<close>
      even) is \<^verbatim>\<open>\x\<close> and the digit, after a wrap marker when the width \<open>w\<close> is not 0 and
      \<open>2 * w\<close> divides \<open>k\<close>; a low nibble is the digit alone\<close>
  "escaped lang w k d =
     (if even k then
        (if w \<noteq> 0 \<and> k mod (2 * w) = 0 then wrap_marker lang (k = 0) else [])
        @ [bslash, CHR ''x'', d]
      else [d])"

fun literal :: "int \<Rightarrow> int \<Rightarrow> int \<Rightarrow> string \<Rightarrow> string" where
  \<comment> \<open>the output for a run of accepted digits, the first of index \<open>k\<close>\<close>
  "literal lang w k [] = []"
| "literal lang w k (d # ds) = escaped lang w k d @ literal lang w (k + 1) ds"

definition preamble :: "flags \<Rightarrow> int \<Rightarrow> string" where
  \<comment> \<open>what precedes the literal: the newline of interactive mode and the variable name of
      verbose mode\<close>
  "preamble fl lang =
     (if interactive_flag fl then [newline] else [])
     @ (if verbose_flag fl then
          (if lang = 1 then ''unsigned char buffer[] ='' @ [newline]
           else if lang = 2 then ''buffer =  '' @ [dquote, dquote, newline]
           else [])
        else [])"

definition closing :: "int \<Rightarrow> string" where
  \<comment> \<open>the closing quote of the C and Python syntaxes, and the trailing newline\<close>
  "closing lang = (if lang = 1 \<or> lang = 2 then [dquote] else []) @ [newline]"

definition diagnostic :: "flags \<Rightarrow> int \<Rightarrow> string" where
  \<comment> \<open>the line that reports the invalid characters\<close>
  "diagnostic fl n = (if verbose_flag fl \<and> n > 0 then warning n else [])"

function strip_framing :: "string \<Rightarrow> string" where
  \<comment> \<open>strips the framing: the \<^verbatim>\<open>\x\<close> prefixes, the quote characters, the newlines and
      the Python preambles \<^verbatim>\<open>buffer += \<close>\<close>
  "strip_framing [] = []"
| "strip_framing (c # cs) =
     (if prefix [bslash, CHR ''x''] (c # cs) then strip_framing (drop 1 cs)
      else if c = dquote \<or> c = newline then strip_framing cs
      else if prefix ''buffer += '' (c # cs) then strip_framing (drop 9 cs)
      else c # strip_framing cs)"
  by pat_completeness auto
termination
  by (relation "measure length") auto

declare strip_framing.simps [simp del]

definition hex_pair :: "nat \<Rightarrow> string" where
  \<comment> \<open>the two-character lower-case hexadecimal representation of a number below 256\<close>
  "hex_pair i = [''0123456789abcdef'' ! (i div 16), ''0123456789abcdef'' ! (i mod 16)]"

definition badchar_string :: string where
  \<comment> \<open>the pairs for 1 to 255, concatenated\<close>
  "badchar_string = concat (map hex_pair [1..<256])"

fun pairs_of :: "string \<Rightarrow> string list" where
  \<comment> \<open>a string cut into its pairs of characters\<close>
  "pairs_of (a # b # cs) = [a, b] # pairs_of cs"
| "pairs_of cs = []"

definition hex_value :: "char \<Rightarrow> nat" where
  "hex_value ch = (if of_char ch < (58 :: nat) then of_char ch - 48 else of_char ch - 87)"

definition pair_value :: "string \<Rightarrow> nat" where
  \<comment> \<open>the number a pair of lower-case hex digits stands for\<close>
  "pair_value p = (case p of [a, b] \<Rightarrow> 16 * hex_value a + hex_value b | _ \<Rightarrow> 0)"

definition decimal_digits :: "string \<Rightarrow> bool" where
  \<comment> \<open>a string that is not empty and has decimal digits only\<close>
  "decimal_digits ds \<longleftrightarrow> ds \<noteq> [] \<and> list_all (\<lambda>c. c \<in> set ''0123456789'') ds"

definition decimal_value :: "string \<Rightarrow> int" where
  \<comment> \<open>the number a string of decimal digits stands for\<close>
  "decimal_value ds = foldl (\<lambda>a c. 10 * a + (of_char c - 48)) 0 ds"

subsection \<open>A sample environment\<close>

text \<open>
  An environment and initial values for the uninitialised locals, to run the model on:
  plain \<^verbatim>\<open>char\<close> is signed, every allocation succeeds, the input stream is empty, no file
  can be opened, fresh memory reads as null bytes.
\<close>

definition sample_env :: env where
  "sample_env =
     \<lparr>char_signed = True, heap = (\<lambda>n. True), stdin = [], files = (\<lambda>p. None),
      junk = (\<lambda>i. CHR 0x00), atoi = (\<lambda>a. 0),
      program_version = [], program_build = None, program_build_time = []\<rparr>"

definition sample_locals :: locals where
  "sample_locals =
     \<lparr>doOutputHexEscapedString = False, doOutputBadCharString = False, doHexDumpFile = False,
      doReadFromFile = False, doLimitBinaryStringWidth = False, fread_filename = [],
      output_lang = 0, arg_lang = [], string_width = 0\<rparr>"

section \<open>Auxiliary facts\<close>

subsection \<open>Characters\<close>

lemma of_char_less_256: "of_char ch < (256::int)"
  by (metis of_char_mod_256 pos_mod_bound zero_less_numeral)

lemma of_char_nonneg: "0 \<le> (of_char ch :: int)"
  by (metis of_char_mod_256 pos_mod_sign zero_less_numeral)

lemma char_of_codes [simp]:
  "char_of (92::int) = bslash" "char_of (120::int) = CHR ''x''"
  "char_of (34::int) = dquote" "char_of (10::int) = newline"
  by (simp_all add: char_of_def)

lemma char_of_of_char_eq: "(of_char ch :: int) = n \<Longrightarrow> ch = char_of n"
  by (metis char_of_char)

lemma enum_digits: "48 \<le> n \<Longrightarrow> n \<le> 57 \<Longrightarrow> n \<in> {48,49,50,51,52,53,54,55,56,57}" for n :: int
  by simp arith

lemma enum_upper: "65 \<le> n \<Longrightarrow> n \<le> 70 \<Longrightarrow> n \<in> {65,66,67,68,69,70}" for n :: int
  by simp arith

lemma enum_lower: "97 \<le> n \<Longrightarrow> n \<le> 102 \<Longrightarrow> n \<in> {97,98,99,100,101,102}" for n :: int
  by simp arith

lemma hex_char_digits: "(of_char ch :: int) \<in> {48,49,50,51,52,53,54,55,56,57} \<Longrightarrow> hex_char ch"
  by (auto simp: hex_char_def dest!: char_of_of_char_eq simp: char_of_def)

lemma hex_char_upper: "(of_char ch :: int) \<in> {65,66,67,68,69,70} \<Longrightarrow> hex_char ch"
  by (auto simp: hex_char_def dest!: char_of_of_char_eq simp: char_of_def)

lemma hex_char_lower: "(of_char ch :: int) \<in> {97,98,99,100,101,102} \<Longrightarrow> hex_char ch"
  by (auto simp: hex_char_def dest!: char_of_of_char_eq simp: char_of_def)

lemma is_hex_digit_of_char: "is_hex_digit (of_char ch) \<Longrightarrow> hex_char ch"
  unfolding is_hex_digit_def
  by (elim disjE conjE) (erule (1) enum_digits [THEN hex_char_digits]
      enum_upper [THEN hex_char_upper] enum_lower [THEN hex_char_lower])+

lemma hex_digit_code: "is_hex_digit (char_to_int sg ch) \<Longrightarrow> char_to_int sg ch = of_char ch"
  using of_char_less_256 [of ch]
  by (auto simp: is_hex_digit_def char_to_int_def split: if_splits)

lemma hex_char_iff: "is_hex_digit (char_to_int sg ch) \<longleftrightarrow> hex_char ch"
proof
  assume h: "is_hex_digit (char_to_int sg ch)"
  then have "is_hex_digit (of_char ch)"
    using hex_digit_code by fastforce
  then show "hex_char ch" by (rule is_hex_digit_of_char)
next
  assume "hex_char ch"
  then show "is_hex_digit (char_to_int sg ch)"
    by (auto simp: hex_char_def is_hex_digit_def char_to_int_def)
qed

lemma hex_digits_filter: "hex_digits sg buf = filter hex_char buf"
  by (simp add: hex_digits_def hex_char_iff)

subsection \<open>Machine arithmetic\<close>

lemma int_rem_eq_0: "int_rem a b = 0 \<longleftrightarrow> b dvd a"
proof -
  have "int_rem a b = 0 \<longleftrightarrow> a = 0 \<or> \<bar>a\<bar> mod \<bar>b\<bar> = 0"
    by (simp add: int_rem_def sgn_if)
  also have "\<dots> \<longleftrightarrow> \<bar>b\<bar> dvd \<bar>a\<bar>"
    by (auto simp: mod_eq_0_iff_dvd)
  finally show ?thesis by simp
qed

lemma int_mul_ok: "width_ok w \<Longrightarrow> int_mul w 2 = Inr (2 * w)"
  by (simp add: int_mul_def width_ok_def mult.commute)

lemma int_mul_overflow: "\<not> width_ok w \<Longrightarrow> int_mul w 2 = Inl SignedOverflow"
  by (auto simp add: int_mul_def width_ok_def mult.commute)

subsection \<open>One byte of the scan\<close>

lemma wrap_line_eq:
  "wrap_line lang s = s\<lparr>stdout := stdout s @ wrap_marker lang (ai s = 0)\<rparr>"
  by (simp add: wrap_line_def wrap_marker_def putchar_def printf_def Let_def)

lemma loop_body_digit:
  assumes "is_hex_digit (char_to_int sg ch)"
  shows "loop_body sg lang w ch s =
           (if even (ai s) \<and> w \<noteq> 0 \<and> \<not> width_ok w then Inl SignedOverflow
            else Inr (s\<lparr>ai := ai s + 1, stdout := stdout s @ escaped lang w (ai s) ch\<rparr>))"
proof -
  have c: "char_of (char_to_int sg ch) = ch"
    using hex_digit_code [OF assms] by simp
  show ?thesis
  proof (cases "width_ok w")
    case True
    then show ?thesis
      using assms c
      by (simp add: loop_body_def Let_def int_rem_eq_0 int_mul_ok wrap_line_eq escaped_def
          putchar_def mod_eq_0_iff_dvd)
  next
    case False
    then show ?thesis
      using assms c
      by (simp add: loop_body_def Let_def int_rem_eq_0 int_mul_overflow escaped_def putchar_def)
  qed
qed

lemma loop_body_ignored:
  "\<not> is_hex_digit (char_to_int sg ch) \<Longrightarrow> ignored (char_to_int sg ch) \<Longrightarrow>
   loop_body sg lang w ch s = Inr s"
  by (auto simp: loop_body_def ignored_def)

lemma loop_body_invalid:
  "\<not> is_hex_digit (char_to_int sg ch) \<Longrightarrow> \<not> ignored (char_to_int sg ch) \<Longrightarrow>
   loop_body sg lang w ch s = Inr (s\<lparr>invalidhexchar := invalidhexchar s + 1\<rparr>)"
  by (auto simp: loop_body_def ignored_def)

subsection \<open>The whole scan and the whole run\<close>

lemma scan_segment:
  assumes "0 \<le> i" "n \<le> int (length p)" "width_ok w"
  shows "scan sg p n lang w i s =
           Inr \<lparr>ai = ai s + int (length (hex_digits sg (drop (nat i) (take (nat n) p)))),
                invalidhexchar = invalidhexchar s
                   + int (length (invalid_bytes sg (drop (nat i) (take (nat n) p)))),
                stdout = stdout s
                   @ literal lang w (ai s) (hex_digits sg (drop (nat i) (take (nat n) p)))\<rparr>"
  using assms
proof (induction sg p n lang w i s rule: scan.induct)
  case (1 sg p n lang w i s)
  show ?case
  proof (cases "i < n")
    case False
    then show ?thesis
      by (simp add: scan.simps [of sg p n lang w i s] hex_digits_def invalid_bytes_def)
  next
    case True
    with "1.prems" have inb: "0 \<le> i \<and> nat i < length p" by linarith
    from True "1.prems" have nn: "nat i < length (take (nat n) p)" by simp
    have seg: "drop (nat i) (take (nat n) p) = p ! nat i # drop (nat (i + 1)) (take (nat n) p)"
      using Cons_nth_drop_Suc [OF nn] "1.prems"(1) True
      by (simp add: nat_add_distrib)
    let ?ch = "p ! nat i"
    consider (dig) "is_hex_digit (char_to_int sg ?ch)"
      | (ign) "\<not> is_hex_digit (char_to_int sg ?ch)" "ignored (char_to_int sg ?ch)"
      | (inv) "\<not> is_hex_digit (char_to_int sg ?ch)" "\<not> ignored (char_to_int sg ?ch)"
      by blast
    then show ?thesis
    proof cases
      case dig
      let ?s' = "s\<lparr>ai := ai s + 1, stdout := stdout s @ escaped lang w (ai s) ?ch\<rparr>"
      have lb: "loop_body sg lang w ?ch s = Inr ?s'"
        using loop_body_digit [OF dig] "1.prems"(3) by simp
      have "scan sg p n lang w i s = scan sg p n lang w (i + 1) ?s'"
        using True inb lb by (simp add: scan.simps [of sg p n lang w i s])
      then show ?thesis
        using "1.IH" [OF True inb lb] "1.prems" dig
        by (simp add: seg hex_digits_def invalid_bytes_def)
    next
      case ign
      have lb: "loop_body sg lang w ?ch s = Inr s"
        using loop_body_ignored [OF ign] .
      have "scan sg p n lang w i s = scan sg p n lang w (i + 1) s"
        using True inb lb by (simp add: scan.simps [of sg p n lang w i s])
      then show ?thesis
        using "1.IH" [OF True inb lb] "1.prems" ign
        by (simp add: seg hex_digits_def invalid_bytes_def)
    next
      case inv
      let ?s' = "s\<lparr>invalidhexchar := invalidhexchar s + 1\<rparr>"
      have lb: "loop_body sg lang w ?ch s = Inr ?s'"
        using loop_body_invalid [OF inv] .
      have "scan sg p n lang w i s = scan sg p n lang w (i + 1) ?s'"
        using True inb lb by (simp add: scan.simps [of sg p n lang w i s])
      then show ?thesis
        using "1.IH" [OF True inb lb] "1.prems" inv
        by (simp add: seg hex_digits_def invalid_bytes_def)
    qed
  qed
qed

lemma before_scan:
  "(if verbose_flag fl then
      (if lang = 1 then
         printf (''unsigned char buffer[] ='' @ [newline])
           (if interactive_flag fl then putchar 10 \<lparr>ai = 0, invalidhexchar = 0, stdout = out\<rparr>
            else \<lparr>ai = 0, invalidhexchar = 0, stdout = out\<rparr>)
       else if lang = 2 then
         printf (''buffer =  '' @ [dquote, dquote, newline])
           (if interactive_flag fl then putchar 10 \<lparr>ai = 0, invalidhexchar = 0, stdout = out\<rparr>
            else \<lparr>ai = 0, invalidhexchar = 0, stdout = out\<rparr>)
       else (if interactive_flag fl then putchar 10 \<lparr>ai = 0, invalidhexchar = 0, stdout = out\<rparr>
             else \<lparr>ai = 0, invalidhexchar = 0, stdout = out\<rparr>))
    else (if interactive_flag fl then putchar 10 \<lparr>ai = 0, invalidhexchar = 0, stdout = out\<rparr>
          else \<lparr>ai = 0, invalidhexchar = 0, stdout = out\<rparr>))
   = \<lparr>ai = 0, invalidhexchar = 0, stdout = out @ preamble fl lang\<rparr>"
  by (simp add: preamble_def putchar_def printf_def)

lemma after_scan:
  "(let s4 = (if lang = 1 then putchar 34 s3 else if lang = 2 then putchar 34 s3 else s3);
        s5 = putchar 10 s4
    in if verbose_flag fl \<and> invalidhexchar s5 > 0
       then printf (warning (invalidhexchar s5)) s5 else s5)
   = s3\<lparr>stdout := stdout s3 @ closing lang @ diagnostic fl (invalidhexchar s3)\<rparr>"
  by (simp add: closing_def diagnostic_def putchar_def printf_def Let_def)

lemma formatter_scan:
  "output_hex_escaped_string sg fl p n lang w out =
     (case scan sg p n lang w 0 \<lparr>ai = 0, invalidhexchar = 0, stdout = out @ preamble fl lang\<rparr> of
        Inl e \<Rightarrow> Inl e
      | Inr s3 \<Rightarrow> Inr (s3\<lparr>stdout := stdout s3 @ closing lang @ diagnostic fl (invalidhexchar s3)\<rparr>))"
  unfolding output_hex_escaped_string_def
  by (simp only: Let_def before_scan after_scan [unfolded Let_def])

lemma formatter_run:
  assumes "n \<le> int (length p)" "width_ok w"
  shows "output_hex_escaped_string sg fl p n lang w out =
           Inr \<lparr>ai = int (length (hex_digits sg (take (nat n) p))),
                invalidhexchar = int (length (invalid_bytes sg (take (nat n) p))),
                stdout = out @ preamble fl lang
                   @ literal lang w 0 (hex_digits sg (take (nat n) p))
                   @ closing lang
                   @ diagnostic fl (int (length (invalid_bytes sg (take (nat n) p))))\<rparr>"
  using scan_segment [OF _ assms, of 0 sg lang]
  by (simp add: formatter_scan)

lemma formatter_overflow:
  assumes "0 < n" "n \<le> int (length p)" "hex_char (p ! 0)" "w \<noteq> 0" "\<not> width_ok w"
  shows "output_hex_escaped_string sg fl p n lang w out = Inl SignedOverflow"
proof -
  have d: "is_hex_digit (char_to_int sg (p ! 0))"
    using assms(3) by (simp add: hex_char_iff)
  have len: "0 < length p"
    using assms(1,2) by linarith
  have "loop_body sg lang w (p ! 0) s = Inl SignedOverflow" if "ai s = 0" for s
    using loop_body_digit [OF d, of lang w s] assms that by simp
  then have "scan sg p n lang w 0 s = Inl SignedOverflow" if "ai s = 0" for s
    using assms(1) len that by (simp add: scan.simps [of sg p n lang w 0 s])
  then show ?thesis
    by (simp add: formatter_scan)
qed

lemma width_ok_0: "width_ok 0"
  by (simp add: width_ok_def INT_MIN_def INT_MAX_def)

lemma scan_no_digits:
  assumes "0 \<le> i" "n \<le> int (length p)" "hex_digits sg (drop (nat i) (take (nat n) p)) = []"
  shows "scan sg p n lang w i s =
           Inr (s\<lparr>invalidhexchar := invalidhexchar s
                   + int (length (invalid_bytes sg (drop (nat i) (take (nat n) p))))\<rparr>)"
  using assms
proof (induction sg p n lang w i s rule: scan.induct)
  case (1 sg p n lang w i s)
  show ?case
  proof (cases "i < n")
    case False
    then show ?thesis
      by (simp add: scan.simps [of sg p n lang w i s] invalid_bytes_def)
  next
    case True
    with "1.prems" have inb: "0 \<le> i \<and> nat i < length p" by linarith
    from True "1.prems" have nn: "nat i < length (take (nat n) p)" by simp
    have seg: "drop (nat i) (take (nat n) p) = p ! nat i # drop (nat (i + 1)) (take (nat n) p)"
      using Cons_nth_drop_Suc [OF nn] "1.prems"(1) True
      by (simp add: nat_add_distrib)
    let ?ch = "p ! nat i"
    from "1.prems"(3) have nd: "\<not> is_hex_digit (char_to_int sg ?ch)"
      and rest: "hex_digits sg (drop (nat (i + 1)) (take (nat n) p)) = []"
      by (auto simp: seg hex_digits_def split: if_splits)
    show ?thesis
    proof (cases "ignored (char_to_int sg ?ch)")
      case True
      have lb: "loop_body sg lang w ?ch s = Inr s"
        using loop_body_ignored [OF nd True] .
      have "scan sg p n lang w i s = scan sg p n lang w (i + 1) s"
        using \<open>i < n\<close> inb lb by (simp add: scan.simps [of sg p n lang w i s])
      then show ?thesis
        using "1.IH" [OF \<open>i < n\<close> inb lb _ _ rest] "1.prems" nd True
        by (simp add: seg invalid_bytes_def)
    next
      case False
      let ?s' = "s\<lparr>invalidhexchar := invalidhexchar s + 1\<rparr>"
      have lb: "loop_body sg lang w ?ch s = Inr ?s'"
        using loop_body_invalid [OF nd False] .
      have "scan sg p n lang w i s = scan sg p n lang w (i + 1) ?s'"
        using \<open>i < n\<close> inb lb by (simp add: scan.simps [of sg p n lang w i s])
      then show ?thesis
        using "1.IH" [OF \<open>i < n\<close> inb lb _ _ rest] "1.prems" nd False
        by (simp add: seg invalid_bytes_def)
    qed
  qed
qed

lemma scan_faults:
  assumes "0 \<le> i" "n \<le> int (length p)" "\<not> width_ok w" "even (ai s)"
    and "hex_digits sg (drop (nat i) (take (nat n) p)) \<noteq> []"
  shows "scan sg p n lang w i s = Inl SignedOverflow"
  using assms
proof (induction sg p n lang w i s rule: scan.induct)
  case (1 sg p n lang w i s)
  from "1.prems"(3) have w0: "w \<noteq> 0" using width_ok_0 by auto
  have lt: "i < n"
  proof (rule ccontr)
    assume "\<not> i < n"
    then have "drop (nat i) (take (nat n) p) = []" using "1.prems"(1) by simp
    with "1.prems"(5) show False by (simp add: hex_digits_def)
  qed
  with "1.prems" have inb: "0 \<le> i \<and> nat i < length p" by linarith
  from lt "1.prems" have nn: "nat i < length (take (nat n) p)" by simp
  have seg: "drop (nat i) (take (nat n) p) = p ! nat i # drop (nat (i + 1)) (take (nat n) p)"
    using Cons_nth_drop_Suc [OF nn] "1.prems"(1) lt
    by (simp add: nat_add_distrib)
  let ?ch = "p ! nat i"
  show ?case
  proof (cases "is_hex_digit (char_to_int sg ?ch)")
    case True
    have "loop_body sg lang w ?ch s = Inl SignedOverflow"
      using loop_body_digit [OF True, of lang w s] "1.prems"(3,4) w0 by simp
    then show ?thesis
      using lt inb by (simp add: scan.simps [of sg p n lang w i s])
  next
    case nd: False
    then have rest: "hex_digits sg (drop (nat (i + 1)) (take (nat n) p)) \<noteq> []"
      using "1.prems"(5) by (simp add: seg hex_digits_def)
    show ?thesis
    proof (cases "ignored (char_to_int sg ?ch)")
      case True
      have lb: "loop_body sg lang w ?ch s = Inr s"
        using loop_body_ignored [OF nd True] .
      have "scan sg p n lang w i s = scan sg p n lang w (i + 1) s"
        using lt inb lb by (simp add: scan.simps [of sg p n lang w i s])
      then show ?thesis
        using "1.IH" [OF lt inb lb _ _ _ _ rest] "1.prems" by simp
    next
      case False
      let ?s' = "s\<lparr>invalidhexchar := invalidhexchar s + 1\<rparr>"
      have lb: "loop_body sg lang w ?ch s = Inr ?s'"
        using loop_body_invalid [OF nd False] .
      have "scan sg p n lang w i s = scan sg p n lang w (i + 1) ?s'"
        using lt inb lb by (simp add: scan.simps [of sg p n lang w i s])
      then show ?thesis
        using "1.IH" [OF lt inb lb _ _ _ _ rest] "1.prems" by simp
    qed
  qed
qed

text \<open>
  The whole run, in every case: it returns unless the buffer has a hex digit and twice
  the width is not an \<^verbatim>\<open>int\<close>.
\<close>

lemma formatter_total:
  assumes "n \<le> int (length p)"
  shows "output_hex_escaped_string sg fl p n lang w out =
           (if width_ok w \<or> hex_digits sg (take (nat n) p) = [] then
              Inr \<lparr>ai = int (length (hex_digits sg (take (nat n) p))),
                   invalidhexchar = int (length (invalid_bytes sg (take (nat n) p))),
                   stdout = out @ preamble fl lang
                      @ literal lang w 0 (hex_digits sg (take (nat n) p))
                      @ closing lang
                      @ diagnostic fl (int (length (invalid_bytes sg (take (nat n) p))))\<rparr>
            else Inl SignedOverflow)"
proof (cases "width_ok w")
  case True
  then show ?thesis using formatter_run [OF assms True] by simp
next
  case nw: False
  show ?thesis
  proof (cases "hex_digits sg (take (nat n) p) = []")
    case True
    then show ?thesis
      using scan_no_digits [where i = 0 and sg = sg and lang = lang and w = w, OF _ assms]
      by (simp add: formatter_scan)
  next
    case False
    then show ?thesis
      using scan_faults [where i = 0 and sg = sg and lang = lang
            and s = "\<lparr>ai = 0, invalidhexchar = 0, stdout = out @ preamble fl lang\<rparr>", OF _ assms nw] nw
      by (simp add: formatter_scan)
  qed
qed

subsection \<open>Stripping the framing\<close>

lemma strip_bslash_x [simp]: "strip_framing (bslash # CHR ''x'' # r) = strip_framing r"
  by (simp add: strip_framing.simps)

lemma strip_dquote [simp]: "strip_framing (dquote # r) = strip_framing r"
  by (simp add: strip_framing.simps)

lemma strip_newline [simp]: "strip_framing (newline # r) = strip_framing r"
  by (simp add: strip_framing.simps)

lemma strip_buffer: "strip_framing (''buffer += '' @ r) = strip_framing r"
  by (simp add: strip_framing.simps)

lemma strip_nil [simp]: "strip_framing [] = []"
  by (simp add: strip_framing.simps)

lemma hex_char_not_framing:
  "hex_char d \<Longrightarrow> d \<noteq> bslash \<and> d \<noteq> dquote \<and> d \<noteq> newline \<and> d \<noteq> CHR ''u''"
  by (auto simp: hex_char_def)

lemma strip_digit:
  assumes "hex_char d" "r \<noteq> []" "hd r \<noteq> CHR ''u''"
  shows "strip_framing (d # r) = d # strip_framing r"
proof -
  obtain a r' where r: "r = a # r'" using assms(2) by (cases r) auto
  with assms(3) have "a \<noteq> CHR ''u''" by simp
  then have "\<not> prefix ''buffer += '' (d # r)" by (simp add: r)
  moreover have "\<not> prefix [bslash, CHR ''x''] (d # r)"
    using hex_char_not_framing [OF assms(1)] by auto
  ultimately show ?thesis
    using hex_char_not_framing [OF assms(1)] by (auto simp add: strip_framing.simps(2))
qed

lemma strip_marker: "strip_framing (wrap_marker lang first @ r) = strip_framing r"
  using strip_buffer [of "dquote # r"] by (simp add: wrap_marker_def)

lemma hd_marker: "wrap_marker lang first @ bslash # r \<noteq> [] \<and> hd (wrap_marker lang first @ bslash # r) \<noteq> CHR ''u''"
  by (simp add: wrap_marker_def)

lemma hd_escaped:
  "hex_char d \<Longrightarrow> hd (escaped lang w k d @ r) \<noteq> CHR ''u''"
  using hd_marker [of lang "k = 0"] hex_char_not_framing [of d]
  by (auto simp: escaped_def)

lemma escaped_not_nil: "escaped lang w k d \<noteq> []"
  by (simp add: escaped_def)

lemma strip_escaped:
  assumes "hex_char d" "r \<noteq> []" "hd r \<noteq> CHR ''u''"
  shows "strip_framing (escaped lang w k d @ r) = d # strip_framing r"
  using strip_digit [OF assms] by (simp add: escaped_def strip_marker)

lemma strip_literal:
  assumes "\<forall>d \<in> set ds. hex_char d" "r \<noteq> []" "hd r \<noteq> CHR ''u''"
  shows "strip_framing (literal lang w k ds @ r) = ds @ strip_framing r"
  using assms
proof (induction ds arbitrary: k)
  case Nil
  then show ?case by simp
next
  case (Cons d ds)
  let ?rest = "literal lang w (k + 1) ds @ r"
  have ne: "?rest \<noteq> []" using Cons.prems(2) by simp
  have hd: "hd ?rest \<noteq> CHR ''u''"
  proof (cases ds)
    case Nil
    then show ?thesis using Cons.prems(3) by simp
  next
    case (Cons d' ds')
    then have "hex_char d'" using Cons.prems(1) by simp
    then show ?thesis using hd_escaped [of d'] by (simp add: Cons)
  qed
  have "strip_framing (escaped lang w k d @ ?rest) = d # strip_framing ?rest"
    using strip_escaped [OF _ ne hd] Cons.prems(1) by simp
  then show ?case
    using Cons.IH [of "k + 1"] Cons.prems by simp
qed

lemma strip_closing [simp]: "strip_framing (closing lang) = []"
  by (simp add: closing_def)

section \<open>The claims\<close>

subsection \<open>C1: the scenario \<^verbatim>\<open>414243\<close>\<close>

text \<open>
  C1. The formatter is called on the six characters \<^verbatim>\<open>414243\<close>, with both flags off.
  With syntax plain and width 0 the complete output is \<^verbatim>\<open>\x41\x42\x43\<close> and a newline.
  With syntax C and width 1 it is \<^verbatim>\<open>"\x41"\<close>, \<^verbatim>\<open>"\x42"\<close>, \<^verbatim>\<open>"\x43"\<close>, each followed by a
  newline. With syntax C and width 0 the claim expects \<^verbatim>\<open>"\x41\x42\x43"\<close> and a newline;
  the function writes \<^verbatim>\<open>\x41\x42\x43"\<close> and a newline: the opening quote is only written
  on the path taken when the width is not 0, the closing quote always.
\<close>

theorem formatter_414243:
  "output_hex_escaped_string sg \<lparr>verbose_flag = False, interactive_flag = False\<rparr> ''414243'' 6 0 0 []
     = Inr \<lparr>ai = 6, invalidhexchar = 0,
            stdout = [bslash] @ ''x41'' @ [bslash] @ ''x42'' @ [bslash] @ ''x43'' @ [newline]\<rparr>
   \<and> output_hex_escaped_string sg \<lparr>verbose_flag = False, interactive_flag = False\<rparr> ''414243'' 6 1 0 []
     = Inr \<lparr>ai = 6, invalidhexchar = 0,
            stdout = [bslash] @ ''x41'' @ [bslash] @ ''x42'' @ [bslash] @ ''x43'' @ [dquote, newline]\<rparr>
   \<and> output_hex_escaped_string sg \<lparr>verbose_flag = False, interactive_flag = False\<rparr> ''414243'' 6 1 0 []
     \<noteq> Inr \<lparr>ai = 6, invalidhexchar = 0,
            stdout = [dquote, bslash] @ ''x41'' @ [bslash] @ ''x42'' @ [bslash] @ ''x43'' @ [dquote, newline]\<rparr>
   \<and> output_hex_escaped_string sg \<lparr>verbose_flag = False, interactive_flag = False\<rparr> ''414243'' 6 1 1 []
     = Inr \<lparr>ai = 6, invalidhexchar = 0,
            stdout = [dquote, bslash] @ ''x41'' @ [dquote, newline]
                   @ [dquote, bslash] @ ''x42'' @ [dquote, newline]
                   @ [dquote, bslash] @ ''x43'' @ [dquote, newline]\<rparr>"
  by (simp add: output_hex_escaped_string_def scan.simps loop_body_def char_to_int_def
      is_hex_digit_def int_rem_def int_mul_def INT_MIN_def INT_MAX_def wrap_line_def putchar_def
      printf_def Let_def char_of_def)

subsection \<open>C2: the round trip over digit pairs\<close>

lemma strip_declaration_c:
  "strip_framing (''unsigned char buffer[] ='' @ newline # r)
     = ''unsigned char buffer[] ='' @ strip_framing r"
  by (simp add: strip_framing.simps(2))

lemma strip_declaration_python:
  "strip_framing (''buffer =  '' @ dquote # dquote # newline # r) = ''buffer =  '' @ strip_framing r"
  by (simp add: strip_framing.simps(2))

lemma strip_preamble:
  "strip_framing (preamble fl lang @ r) =
     (if verbose_flag fl \<and> lang = 1 then ''unsigned char buffer[] =''
      else if verbose_flag fl \<and> lang = 2 then ''buffer =  '' else []) @ strip_framing r"
  using strip_declaration_c [of r] strip_declaration_python [of r]
  by (simp add: preamble_def)

text \<open>
  C2 (amended). For every input buffer that consists solely of valid hex-digit characters
  (0-9, A-F, a-f) and has even length, for every syntax, for either value of the two flags
  and for every wrap width whose double is an \<^verbatim>\<open>int\<close>, the formatter returns, and stripping
  the framing from its output (the \<^verbatim>\<open>\x\<close> prefixes, the quotes, the newlines and the Python
  preambles \<^verbatim>\<open>buffer += \<close>) yields the digit characters of the input, in order; in verbose
  mode with the C or the Python syntax they follow the text of the declaration line that
  the formatter writes first (\<^verbatim>\<open>unsigned char buffer[] =\<close>, \<^verbatim>\<open>buffer =  \<close>), which is not
  among the framing that the claim strips. The claim says it for every wrap width and
  speaks of the digits alone. At the width \<open>- 2\<^sup>3\<^sup>1\<close>, a value of \<^verbatim>\<open>int\<close>, the product
  \<^verbatim>\<open>string_width*2\<close> is not an \<^verbatim>\<open>int\<close>: the behaviour is undefined and there is no output
  to strip (where the product wraps around it is 0, and the remainder \<^verbatim>\<open>ai % 0\<close> traps).
  In verbose mode with the syntax C the stripped output of the input \<^verbatim>\<open>4142\<close> is
  \<^verbatim>\<open>unsigned char buffer[] =4142\<close>, and with the syntax Python it is \<^verbatim>\<open>buffer =  4142\<close>.
\<close>

theorem round_trip:
  assumes "\<forall>ch \<in> set buf. hex_char ch" "even (length buf)" "width_ok w \<or> buf = []"
  shows "\<exists>s. output_hex_escaped_string sg fl buf (int (length buf)) lang w [] = Inr s
             \<and> strip_framing (stdout s) =
                 (if verbose_flag fl \<and> lang = 1 then ''unsigned char buffer[] =''
                  else if verbose_flag fl \<and> lang = 2 then ''buffer =  '' else []) @ buf"
proof -
  have ds: "hex_digits sg buf = buf"
    using assms(1) by (simp add: hex_digits_filter)
  have inv: "invalid_bytes sg buf = []"
    using assms(1) by (simp add: invalid_bytes_def hex_char_iff)
  have cl: "closing lang \<noteq> [] \<and> hd (closing lang) \<noteq> CHR ''u''"
    by (simp add: closing_def)
  have "strip_framing (literal lang w 0 buf @ closing lang) = buf"
    using strip_literal [OF assms(1), of "closing lang" lang w 0] cl by simp
  then have "strip_framing (preamble fl lang @ literal lang w 0 buf @ closing lang)
          = (if verbose_flag fl \<and> lang = 1 then ''unsigned char buffer[] =''
             else if verbose_flag fl \<and> lang = 2 then ''buffer =  '' else []) @ buf"
    by (simp only: strip_preamble)
  then show ?thesis
    using assms(3) by (simp add: formatter_total ds inv diagnostic_def)
qed

theorem round_trip_witness:
  "list_all hex_char ''4142'' \<and> even (length ''4142'') \<and> width_ok 1
   \<and> (\<exists>s. output_hex_escaped_string True \<lparr>verbose_flag = True, interactive_flag = True\<rparr>
              ''4142'' 4 0 1 [] = Inr s
          \<and> strip_framing (stdout s) = ''4142'')
   \<and> (\<exists>s. output_hex_escaped_string True \<lparr>verbose_flag = False, interactive_flag = False\<rparr>
              ''4142'' 4 2 1 [] = Inr s
          \<and> strip_framing (stdout s) = ''4142'')"
  using round_trip [of "''4142''" 1 True "\<lparr>verbose_flag = True, interactive_flag = True\<rparr>" 0]
    round_trip [of "''4142''" 1 True "\<lparr>verbose_flag = False, interactive_flag = False\<rparr>" 2]
  by (simp add: hex_char_def width_ok_def INT_MIN_def INT_MAX_def)

theorem round_trip_counterexample:
  "output_hex_escaped_string True \<lparr>verbose_flag = False, interactive_flag = False\<rparr>
     ''4142'' 4 0 (- 2147483648) [] = Inl SignedOverflow
   \<and> output_hex_escaped_string True \<lparr>verbose_flag = True, interactive_flag = False\<rparr>
       ''4142'' 4 1 0 []
     = Inr \<lparr>ai = 4, invalidhexchar = 0,
            stdout = ''unsigned char buffer[] ='' @ [newline, bslash] @ ''x41'' @ [bslash] @ ''x42''
                     @ [dquote, newline]\<rparr>
   \<and> strip_framing (''unsigned char buffer[] ='' @ [newline, bslash] @ ''x41'' @ [bslash] @ ''x42''
                     @ [dquote, newline])
     = ''unsigned char buffer[] =4142''
   \<and> output_hex_escaped_string True \<lparr>verbose_flag = True, interactive_flag = False\<rparr>
       ''4142'' 4 2 0 []
     = Inr \<lparr>ai = 4, invalidhexchar = 0,
            stdout = ''buffer =  '' @ [dquote, dquote, newline, bslash] @ ''x41'' @ [bslash] @ ''x42''
                     @ [dquote, newline]\<rparr>
   \<and> strip_framing (''buffer =  '' @ [dquote, dquote, newline, bslash] @ ''x41'' @ [bslash] @ ''x42''
                     @ [dquote, newline])
     = ''buffer =  4142''"
  by (simp add: output_hex_escaped_string_def scan.simps loop_body_def char_to_int_def
      is_hex_digit_def int_rem_def int_mul_def INT_MIN_def INT_MAX_def wrap_line_def putchar_def
      printf_def Let_def char_of_def strip_framing.simps(2))

subsection \<open>C3: where the wrap markers stand\<close>

text \<open>
  C3 (amended). For every input and every wrap width \<open>w > 0\<close> whose double is an \<^verbatim>\<open>int\<close>
  (\<open>w < 2\<^sup>3\<^sup>0\<close>), the formatter returns and its output is, between the preamble and the
  closing, what the accepted digits add one after the other: the digit of index \<open>k\<close>
  adds the wrap marker of the syntax and the high-nibble escape when \<open>k\<close> is even and
  \<open>k mod 2w = 0\<close> (the marker without its close-quote and newline at \<open>k = 0\<close>), the escape
  alone when \<open>k\<close> is even otherwise, and the bare digit when \<open>k\<close> is odd. So the two digits
  of a pair are adjacent: no marker comes between them. The claim says it for every
  \<open>w > 0\<close>; at \<open>w = 2\<^sup>3\<^sup>1 - 1\<close> the product \<^verbatim>\<open>string_width*2\<close> is not an \<^verbatim>\<open>int\<close>.
\<close>

theorem wrap_positions:
  assumes "0 < w" "width_ok w"
  shows "(\<exists>s. output_hex_escaped_string sg fl buf (int (length buf)) lang w out = Inr s
             \<and> stdout s = out @ preamble fl lang @ literal lang w 0 (hex_digits sg buf)
                            @ closing lang @ diagnostic fl (invalidhexchar s))
       \<and> (\<forall>k d. escaped lang w k d =
             (if even k \<and> k mod (2 * w) = 0 then wrap_marker lang (k = 0) @ [bslash, CHR ''x'', d]
              else if even k then [bslash, CHR ''x'', d]
              else [d]))
       \<and> (\<forall>k h l ds. even k \<longrightarrow> literal lang w k (h # l # ds) =
             (if k mod (2 * w) = 0 then wrap_marker lang (k = 0) else [])
             @ [bslash, CHR ''x'', h, l] @ literal lang w (k + 2) ds)"
proof (intro conjI allI impI)
  show "\<exists>s. output_hex_escaped_string sg fl buf (int (length buf)) lang w out = Inr s
             \<and> stdout s = out @ preamble fl lang @ literal lang w 0 (hex_digits sg buf)
                            @ closing lang @ diagnostic fl (invalidhexchar s)"
    using assms(2) by (simp add: formatter_run)
  show "escaped lang w k d =
           (if even k \<and> k mod (2 * w) = 0 then wrap_marker lang (k = 0) @ [bslash, CHR ''x'', d]
            else if even k then [bslash, CHR ''x'', d]
            else [d])" for k d
    using assms(1) by (simp add: escaped_def)
  show "literal lang w k (h # l # ds) =
           (if k mod (2 * w) = 0 then wrap_marker lang (k = 0) else [])
           @ [bslash, CHR ''x'', h, l] @ literal lang w (k + 2) ds" if "even k" for k h l ds
    using assms(1) that by (simp add: escaped_def ac_simps)
qed

theorem wrap_positions_witness:
  "(0::int) < 1 \<and> width_ok 1
   \<and> (\<exists>s. output_hex_escaped_string True \<lparr>verbose_flag = False, interactive_flag = False\<rparr>
              ''41z42'' 5 2 1 [] = Inr s
          \<and> stdout s = ''buffer += '' @ [dquote, bslash] @ ''x41'' @ [dquote, newline]
                       @ ''buffer += '' @ [dquote, bslash] @ ''x42'' @ [dquote, newline])"
proof -
  have w: "(0::int) < 1" "width_ok 1"
    by (simp_all add: width_ok_def INT_MIN_def INT_MAX_def)
  from wrap_positions [OF w, of True "\<lparr>verbose_flag = False, interactive_flag = False\<rparr>"
      "''41z42''" 2 "[]"]
  obtain s where s: "output_hex_escaped_string True \<lparr>verbose_flag = False, interactive_flag = False\<rparr>
        ''41z42'' (int (length ''41z42'')) 2 1 [] = Inr s"
    "stdout s = [] @ preamble \<lparr>verbose_flag = False, interactive_flag = False\<rparr> 2
        @ literal 2 1 0 (hex_digits True ''41z42'') @ closing 2
        @ diagnostic \<lparr>verbose_flag = False, interactive_flag = False\<rparr> (invalidhexchar s)"
    by blast
  have "stdout s = ''buffer += '' @ [dquote, bslash] @ ''x41'' @ [dquote, newline]
                       @ ''buffer += '' @ [dquote, bslash] @ ''x42'' @ [dquote, newline]"
    using s(2)
    by (simp add: hex_digits_filter hex_char_def escaped_def
        wrap_marker_def preamble_def closing_def diagnostic_def)
  with s(1) w show ?thesis by simp
qed

theorem wrap_positions_counterexample:
  "output_hex_escaped_string True \<lparr>verbose_flag = False, interactive_flag = False\<rparr>
     ''4142'' 4 0 2147483647 [] = Inl SignedOverflow"
  by (simp add: output_hex_escaped_string_def scan.simps loop_body_def char_to_int_def
      is_hex_digit_def int_rem_def int_mul_def INT_MIN_def INT_MAX_def wrap_line_def putchar_def
      printf_def Let_def char_of_def)

subsection \<open>C4: invalid characters\<close>

lemma literal_append:
  "literal lang w k (xs @ ys) = literal lang w k xs @ literal lang w (k + int (length xs)) ys"
  by (induction xs arbitrary: k) (simp_all add: ac_simps)

lemma decimal_digit: "k < 10 \<Longrightarrow> char_of (48 + k) \<noteq> newline" for k :: nat
proof
  assume k: "k < 10" and eq: "char_of (48 + k) = newline"
  have "(of_char (char_of (48 + k)) :: nat) = of_char newline"
    by (simp only: eq)
  then have "(48 + k) mod 256 = 10" by simp
  with k show False by simp
qed

lemma decimal_no_newline: "newline \<notin> set (decimal n)"
proof (induction n rule: decimal.induct)
  case (1 n)
  show ?case
  proof (cases "n < 10")
    case True
    then show ?thesis
      using decimal_digit [of n] by (simp add: decimal.simps [of n])
  next
    case False
    have "n mod 10 < 10" by simp
    then show ?thesis
      using False "1.IH" decimal_digit [of "n mod 10"] by (simp add: decimal.simps [of n])
  qed
qed

lemma printf_d_no_newline: "0 \<le> n \<Longrightarrow> newline \<notin> set (printf_d n)"
  using decimal_no_newline by (simp add: printf_d_def)

lemma ignored_not_digit: "ignored c \<Longrightarrow> \<not> is_hex_digit c"
  by (auto simp: ignored_def is_hex_digit_def EOF_def)

lemma hex_digits_idem: "hex_digits sg (hex_digits sg buf) = hex_digits sg buf"
  by (simp add: hex_digits_def)

lemma invalid_of_digits: "invalid_bytes sg (hex_digits sg buf) = []"
  by (simp add: hex_digits_def invalid_bytes_def)

lemma decimal_digit_chars: "map (\<lambda>k. char_of (48 + k)) [0..<10] = ''0123456789''"
  by code_simp

lemma decimal_digit_char: "k < 10 \<Longrightarrow> char_of (48 + k) = ''0123456789'' ! k" for k :: nat
  using nth_map [of k "[0..<10]" "\<lambda>k. char_of (48 + k)"]
  by (simp only: decimal_digit_chars) simp

lemma decimal_digit_in: "k < 10 \<Longrightarrow> char_of (48 + k) \<in> set ''0123456789''" for k :: nat
  using nth_mem [of k "''0123456789''"] by (simp only: decimal_digit_char) simp

lemma decimal_digit_code: "k < 10 \<Longrightarrow> (of_char (char_of (48 + k)) :: int) = 48 + int k" for k :: nat
proof -
  assume "k < 10"
  then have n: "(of_char (char_of (48 + k)) :: nat) = 48 + k" by simp
  have "(of_char (char_of (48 + k)) :: int) = int (of_char (char_of (48 + k)))"
    by (simp only: of_nat_of_char)
  also have "\<dots> = int (48 + k)"
    by (simp only: n)
  finally show ?thesis by simp
qed

lemma decimal_all_digits: "list_all (\<lambda>c. c \<in> set ''0123456789'') (decimal n)"
proof (induction n rule: decimal.induct)
  case (1 n)
  show ?case
  proof (cases "n < 10")
    case True
    then show ?thesis
      using decimal_digit_in [of n] by (simp add: decimal.simps [of n])
  next
    case False
    have "n mod 10 < 10" by simp
    then show ?thesis
      using False "1.IH" decimal_digit_in [of "n mod 10"] by (simp add: decimal.simps [of n])
  qed
qed

lemma decimal_not_nil: "decimal n \<noteq> []"
  by (simp add: decimal.simps [of n])

lemma decimal_value_snoc: "decimal_value (ds @ [c]) = 10 * decimal_value ds + (of_char c - 48)"
  by (simp add: decimal_value_def)

lemma decimal_value_decimal: "decimal_value (decimal n) = int n"
proof (induction n rule: decimal.induct)
  case (1 n)
  show ?case
  proof (cases "n < 10")
    case True
    then show ?thesis
      using decimal_digit_code [of n] by (simp add: decimal.simps [of n] decimal_value_def)
  next
    case False
    have m: "n mod 10 < 10" by simp
    have "decimal_value (decimal n) = 10 * int (n div 10) + int (n mod 10)"
      using False "1.IH" decimal_digit_code [OF m]
      by (simp add: decimal.simps [of n] decimal_value_snoc)
    then show ?thesis
      by (simp add: zdiv_int zmod_int)
  qed
qed

lemma decimal_digits_decimal: "decimal_digits (decimal n)"
  unfolding decimal_digits_def by (intro conjI decimal_not_nil decimal_all_digits)

lemma printf_d_decimal:
  assumes "0 \<le> n"
  shows "decimal_digits (printf_d n) \<and> decimal_value (printf_d n) = n"
proof -
  have "printf_d n = decimal (nat n)"
    using assms by (simp add: printf_d_def)
  then show ?thesis
    using assms by (simp only: decimal_digits_decimal decimal_value_decimal) simp
qed

lemma printf_d_1: "printf_d 1 = ''1''"
  by code_simp

text \<open>
  C4 (amended). In the formatter's loop, a byte that is not a hex digit and not EOF,
  newline (10) or null (0) adds one to the invalid-character counter and changes neither
  the output nor the digit index \<open>ai\<close>; an EOF, newline or null byte changes nothing at
  all. For every wrap width whose double is an \<^verbatim>\<open>int\<close>, and for every width when the
  input has no hex digit, the whole run returns; its counter is the number of such invalid
  bytes, and its output is the full output of the run on the hex digits alone, followed,
  when the verbose flag is set and the counter is greater than zero, by the one line
  \<^verbatim>\<open>[-] Warning: N non-hexadecimal character(s) detected in input.\<close>, where \<open>N\<close> is the
  counter in decimal digits, and by nothing otherwise. The claim says of every run that it
  produces its full output and succeeds. At the width \<open>- 2\<^sup>3\<^sup>1\<close>, a value of \<^verbatim>\<open>int\<close>, the
  product \<^verbatim>\<open>string_width*2\<close> is not an \<^verbatim>\<open>int\<close>: on the input \<^verbatim>\<open>z4\<close> the behaviour is
  undefined at the digit, and there is no output and no diagnostic (where the product
  wraps around it is 0, and the remainder \<^verbatim>\<open>ai % 0\<close> traps).
\<close>

theorem invalid_characters:
  "(\<not> is_hex_digit (char_to_int sg ch) \<and> \<not> ignored (char_to_int sg ch) \<longrightarrow>
      loop_body sg lang w ch s = Inr (s\<lparr>invalidhexchar := invalidhexchar s + 1\<rparr>))
   \<and> (ignored (char_to_int sg ch) \<longrightarrow> loop_body sg lang w ch s = Inr s)
   \<and> (width_ok w \<or> hex_digits sg buf = [] \<longrightarrow>
        (\<exists>r r'. output_hex_escaped_string sg fl buf (int (length buf)) lang w out = Inr r
           \<and> output_hex_escaped_string sg fl (hex_digits sg buf) (int (length (hex_digits sg buf)))
                lang w out = Inr r'
           \<and> invalidhexchar r = int (length (invalid_bytes sg buf))
           \<and> invalidhexchar r' = 0
           \<and> ai r = ai r'
           \<and> stdout r = stdout r'
                @ (if verbose_flag fl \<and> invalidhexchar r > 0
                   then ''[-] Warning: '' @ printf_d (invalidhexchar r)
                        @ '' non-hexadecimal character(s) detected in input.'' @ [newline]
                   else [])
           \<and> decimal_digits (printf_d (invalidhexchar r))
           \<and> decimal_value (printf_d (invalidhexchar r)) = invalidhexchar r
           \<and> newline \<notin> set (printf_d (invalidhexchar r))))"
proof (intro conjI impI)
  assume "\<not> is_hex_digit (char_to_int sg ch) \<and> \<not> ignored (char_to_int sg ch)"
  then show "loop_body sg lang w ch s = Inr (s\<lparr>invalidhexchar := invalidhexchar s + 1\<rparr>)"
    by (simp add: loop_body_invalid)
next
  assume "ignored (char_to_int sg ch)"
  then show "loop_body sg lang w ch s = Inr s"
    by (simp add: loop_body_ignored ignored_not_digit)
next
  assume w: "width_ok w \<or> hex_digits sg buf = []"
  have d: "decimal_digits (printf_d (int (length (invalid_bytes sg buf))))
           \<and> decimal_value (printf_d (int (length (invalid_bytes sg buf))))
               = int (length (invalid_bytes sg buf))"
    by (rule printf_d_decimal) simp
  have nl: "newline \<notin> set (printf_d (int (length (invalid_bytes sg buf))))"
    by (rule printf_d_no_newline) simp
  show "\<exists>r r'. output_hex_escaped_string sg fl buf (int (length buf)) lang w out = Inr r
           \<and> output_hex_escaped_string sg fl (hex_digits sg buf) (int (length (hex_digits sg buf)))
                lang w out = Inr r'
           \<and> invalidhexchar r = int (length (invalid_bytes sg buf))
           \<and> invalidhexchar r' = 0
           \<and> ai r = ai r'
           \<and> stdout r = stdout r'
                @ (if verbose_flag fl \<and> invalidhexchar r > 0
                   then ''[-] Warning: '' @ printf_d (invalidhexchar r)
                        @ '' non-hexadecimal character(s) detected in input.'' @ [newline]
                   else [])
           \<and> decimal_digits (printf_d (invalidhexchar r))
           \<and> decimal_value (printf_d (invalidhexchar r)) = invalidhexchar r
           \<and> newline \<notin> set (printf_d (invalidhexchar r))"
    using w d nl
    by (simp add: formatter_total hex_digits_idem invalid_of_digits diagnostic_def warning_def)
qed

theorem invalid_characters_witness:
  "\<not> is_hex_digit (char_to_int True (CHR ''z'')) \<and> \<not> ignored (char_to_int True (CHR ''z''))
   \<and> loop_body True 1 1 (CHR ''z'') \<lparr>ai = 3, invalidhexchar = 0, stdout = ''x''\<rparr>
       = Inr \<lparr>ai = 3, invalidhexchar = 1, stdout = ''x''\<rparr>
   \<and> ignored (char_to_int True newline)
   \<and> loop_body True 1 1 newline \<lparr>ai = 3, invalidhexchar = 0, stdout = ''x''\<rparr>
       = Inr \<lparr>ai = 3, invalidhexchar = 0, stdout = ''x''\<rparr>
   \<and> width_ok 1
   \<and> (\<exists>r. output_hex_escaped_string True \<lparr>verbose_flag = True, interactive_flag = False\<rparr>
             (''4z1'' @ [newline]) 4 0 1 [] = Inr r
          \<and> invalidhexchar r = 1
          \<and> stdout r = [bslash] @ ''x41'' @ [newline]
               @ ''[-] Warning: 1 non-hexadecimal character(s) detected in input.'' @ [newline])"
proof -
  have z: "\<not> is_hex_digit (char_to_int True (CHR ''z'')) \<and> \<not> ignored (char_to_int True (CHR ''z''))"
    by (simp add: is_hex_digit_def ignored_def char_to_int_def EOF_def)
  have n: "ignored (char_to_int True newline)"
    by (simp add: ignored_def char_to_int_def)
  have w: "width_ok 1"
    by (simp add: width_ok_def INT_MIN_def INT_MAX_def)
  note t = invalid_characters [of True _ 1 1 "\<lparr>ai = 3, invalidhexchar = 0, stdout = ''x''\<rparr>"
      "''4z1'' @ [newline]" "\<lparr>verbose_flag = True, interactive_flag = False\<rparr>" "[]"]
  have a: "loop_body True 1 1 (CHR ''z'') \<lparr>ai = 3, invalidhexchar = 0, stdout = ''x''\<rparr>
       = Inr \<lparr>ai = 3, invalidhexchar = 1, stdout = ''x''\<rparr>"
    using t [of "CHR ''z''"] z by simp
  have b: "loop_body True 1 1 newline \<lparr>ai = 3, invalidhexchar = 0, stdout = ''x''\<rparr>
       = Inr \<lparr>ai = 3, invalidhexchar = 0, stdout = ''x''\<rparr>"
    using t [of newline] n by simp
  have inv: "invalid_bytes True [CHR ''4'', CHR ''z'', CHR ''1'', newline] = ''z''"
    by (simp add: invalid_bytes_def is_hex_digit_def ignored_def char_to_int_def EOF_def)
  have dig: "hex_digits True [CHR ''4'', CHR ''z'', CHR ''1'', newline] = ''41''"
    by (simp add: hex_digits_filter hex_char_def)
  have r': "output_hex_escaped_string True \<lparr>verbose_flag = True, interactive_flag = False\<rparr>
              ''41'' 2 0 1 [] = Inr \<lparr>ai = 2, invalidhexchar = 0, stdout = [bslash] @ ''x41'' @ [newline]\<rparr>"
    by (simp add: output_hex_escaped_string_def scan.simps loop_body_def char_to_int_def
      is_hex_digit_def int_rem_def int_mul_def INT_MIN_def INT_MAX_def wrap_line_def putchar_def
      printf_def Let_def char_of_def)
  have c: "\<exists>r. output_hex_escaped_string True \<lparr>verbose_flag = True, interactive_flag = False\<rparr>
             (''4z1'' @ [newline]) 4 0 1 [] = Inr r
          \<and> invalidhexchar r = 1
          \<and> stdout r = [bslash] @ ''x41'' @ [newline]
               @ ''[-] Warning: 1 non-hexadecimal character(s) detected in input.'' @ [newline]"
    using invalid_characters [of True newline 0 1 "\<lparr>ai = 3, invalidhexchar = 0, stdout = ''x''\<rparr>"
      "''4z1'' @ [newline]" "\<lparr>verbose_flag = True, interactive_flag = False\<rparr>" "[]"] w r'
    by (auto simp add: inv dig printf_d_1)
  from z a n b w c show ?thesis by blast
qed

theorem invalid_characters_counterexample:
  "output_hex_escaped_string True \<lparr>verbose_flag = True, interactive_flag = False\<rparr>
     ''z4'' 2 0 (- 2147483648) [] = Inl SignedOverflow"
  by (simp add: output_hex_escaped_string_def scan.simps loop_body_def char_to_int_def
      is_hex_digit_def int_rem_def int_mul_def INT_MIN_def INT_MAX_def wrap_line_def putchar_def
      printf_def Let_def char_of_def)

subsection \<open>C5: an odd number of digits\<close>

lemma literal_last:
  assumes "odd (length ds)"
  shows "\<exists>pre. literal lang w 0 ds = pre @ [bslash, CHR ''x'', last ds]"
proof -
  from assms have ne: "ds \<noteq> []" by auto
  then have split: "ds = butlast ds @ [last ds]" by simp
  from assms ne have ev: "even (length (butlast ds))" by simp
  have "literal lang w 0 ds
          = literal lang w 0 (butlast ds) @ escaped lang w (int (length (butlast ds))) (last ds)"
    using literal_append [of lang w 0 "butlast ds" "[last ds]"] split by simp
  then show ?thesis
    using ev by (simp add: escaped_def)
qed

text \<open>
  C5 (amended). For every input with an odd number of valid hex-digit characters and every
  wrap width whose double is an \<^verbatim>\<open>int\<close>, the formatter returns: it does not fail. Its output
  ends with the last accepted digit as a lone \<^verbatim>\<open>\xH\<close>, directly followed by the closing
  quote (for the C and Python syntaxes) and the newline, and then by the diagnostic of
  verbose mode if there is one. On the input \<^verbatim>\<open>4\<close> with syntax plain, width 0 and both
  flags off the output is \<^verbatim>\<open>\x4\<close> and a newline. The claim says it of every run. At the
  width \<open>- 2\<^sup>3\<^sup>1\<close>, a value of \<^verbatim>\<open>int\<close>, the product \<^verbatim>\<open>string_width*2\<close> is not an \<^verbatim>\<open>int\<close>: on
  the input \<^verbatim>\<open>4\<close> the behaviour is undefined and nothing is written (where the product
  wraps around it is 0, and the remainder \<^verbatim>\<open>ai % 0\<close> traps).
\<close>

theorem odd_digit_count:
  "(odd (length (hex_digits sg buf)) \<and> width_ok w \<longrightarrow>
      (\<exists>r pre. output_hex_escaped_string sg fl buf (int (length buf)) lang w out = Inr r
         \<and> stdout r = pre @ [bslash, CHR ''x'', last (hex_digits sg buf)]
                        @ (if lang = 1 \<or> lang = 2 then [dquote] else []) @ [newline]
                        @ diagnostic fl (invalidhexchar r)))
   \<and> output_hex_escaped_string sg \<lparr>verbose_flag = False, interactive_flag = False\<rparr> ''4'' 1 0 0 []
       = Inr \<lparr>ai = 1, invalidhexchar = 0, stdout = [bslash] @ ''x4'' @ [newline]\<rparr>"
proof (intro conjI impI)
  assume a: "odd (length (hex_digits sg buf)) \<and> width_ok w"
  then obtain pre where pre: "literal lang w 0 (hex_digits sg buf)
      = pre @ [bslash, CHR ''x'', last (hex_digits sg buf)]"
    using literal_last by blast
  show "\<exists>r pre. output_hex_escaped_string sg fl buf (int (length buf)) lang w out = Inr r
         \<and> stdout r = pre @ [bslash, CHR ''x'', last (hex_digits sg buf)]
                        @ (if lang = 1 \<or> lang = 2 then [dquote] else []) @ [newline]
                        @ diagnostic fl (invalidhexchar r)"
    using a by (simp add: formatter_run pre closing_def)
next
  show "output_hex_escaped_string sg \<lparr>verbose_flag = False, interactive_flag = False\<rparr> ''4'' 1 0 0 []
       = Inr \<lparr>ai = 1, invalidhexchar = 0, stdout = [bslash] @ ''x4'' @ [newline]\<rparr>"
    by (simp add: output_hex_escaped_string_def scan.simps loop_body_def char_to_int_def
      is_hex_digit_def int_rem_def int_mul_def INT_MIN_def INT_MAX_def wrap_line_def putchar_def
      printf_def Let_def char_of_def)
qed

theorem odd_digit_count_witness:
  "odd (length (hex_digits True ''41 4'')) \<and> width_ok 1
   \<and> (\<exists>r pre. output_hex_escaped_string True \<lparr>verbose_flag = False, interactive_flag = False\<rparr>
                 ''41 4'' 4 1 1 [] = Inr r
          \<and> stdout r = pre @ [bslash] @ ''x4'' @ [dquote, newline])"
proof -
  have h: "hex_digits True ''41 4'' = ''414''"
    by (simp add: hex_digits_filter hex_char_def)
  have o: "odd (length (hex_digits True ''41 4'')) \<and> width_ok 1"
    by (simp add: h width_ok_def INT_MIN_def INT_MAX_def)
  from odd_digit_count [of True "''41 4''" 1 "\<lparr>verbose_flag = False, interactive_flag = False\<rparr>" 1 "[]"] o
  have "\<exists>r pre. output_hex_escaped_string True \<lparr>verbose_flag = False, interactive_flag = False\<rparr>
                 ''41 4'' (int (length ''41 4'')) 1 1 [] = Inr r
         \<and> stdout r = pre @ [bslash, CHR ''x'', last (hex_digits True ''41 4'')]
                        @ (if (1::int) = 1 \<or> (1::int) = 2 then [dquote] else []) @ [newline]
                        @ diagnostic \<lparr>verbose_flag = False, interactive_flag = False\<rparr> (invalidhexchar r)"
    by blast
  then have "\<exists>r pre. output_hex_escaped_string True \<lparr>verbose_flag = False, interactive_flag = False\<rparr>
                 ''41 4'' 4 1 1 [] = Inr r
          \<and> stdout r = pre @ [bslash] @ ''x4'' @ [dquote, newline]"
    by (simp add: h diagnostic_def)
  with o show ?thesis by blast
qed

theorem odd_digit_count_counterexample:
  "output_hex_escaped_string True \<lparr>verbose_flag = False, interactive_flag = False\<rparr>
     ''4'' 1 0 (- 2147483648) [] = Inl SignedOverflow"
  by (simp add: output_hex_escaped_string_def scan.simps loop_body_def char_to_int_def
      is_hex_digit_def int_rem_def int_mul_def INT_MIN_def INT_MAX_def wrap_line_def putchar_def
      printf_def Let_def char_of_def)

subsection \<open>C9: the byte \<open>0xFF\<close>\<close>

lemma byte_ff_unsigned:
  "loop_body False lang w (CHR 0xFF) s = Inr (s\<lparr>invalidhexchar := invalidhexchar s + 1\<rparr>)"
  by (rule loop_body_invalid) (simp_all add: char_to_int_def is_hex_digit_def ignored_def EOF_def)

lemma char_to_int_signed:
  "char_to_int True ch = (if (of_char ch :: int) < 128 then of_char ch else of_char ch - 256)"
  by (auto simp add: char_to_int_def)

lemma of_char_255: "(of_char ch :: int) = 255 \<longleftrightarrow> ch = CHR 0xFF"
proof
  assume "(of_char ch :: int) = 255"
  then have "ch = char_of (255 :: int)" by (rule char_of_of_char_eq)
  then show "ch = CHR 0xFF" by (simp add: char_of_def)
next
  assume "ch = CHR 0xFF"
  then show "(of_char ch :: int) = 255" by simp
qed

lemma byte_ff_ignored: "\<not> is_hex_digit (char_to_int True (CHR 0xFF)) \<and> ignored (char_to_int True (CHR 0xFF))"
  by (simp add: char_to_int_def is_hex_digit_def ignored_def EOF_def)

lemma hex_digits_without_ff:
  "hex_digits True (filter (\<lambda>ch. ch \<noteq> CHR 0xFF) buf) = hex_digits True buf"
proof -
  have "is_hex_digit (char_to_int True ch) \<Longrightarrow> ch \<noteq> CHR 0xFF" for ch
    using byte_ff_ignored by auto
  then show ?thesis
    unfolding hex_digits_def filter_filter
    by (intro filter_cong refl) auto
qed

lemma invalid_bytes_without_ff:
  "invalid_bytes True (filter (\<lambda>ch. ch \<noteq> CHR 0xFF) buf) = invalid_bytes True buf"
proof -
  have "\<not> (is_hex_digit (char_to_int True ch) \<or> ignored (char_to_int True ch)) \<Longrightarrow> ch \<noteq> CHR 0xFF" for ch
    using byte_ff_ignored by auto
  then show ?thesis
    unfolding invalid_bytes_def filter_filter
    by (intro filter_cong refl) auto
qed

lemma high_byte_invalid:
  assumes "0x80 \<le> (of_char ch :: int)" "(of_char ch :: int) \<le> 0xFE"
  shows "\<not> is_hex_digit (char_to_int True ch) \<and> \<not> ignored (char_to_int True ch)"
  using assms by (auto simp: char_to_int_def is_hex_digit_def ignored_def EOF_def)

lemma count_invalid_bytes:
  "length (invalid_bytes True buf)
     = length (filter (\<lambda>ch. 0x80 \<le> (of_char ch :: int) \<and> (of_char ch :: int) \<le> 0xFE) buf)
       + length (invalid_bytes True (filter (\<lambda>ch. (of_char ch :: int) < 0x80) buf))"
proof (induction buf)
  case Nil
  then show ?case by (simp add: invalid_bytes_def)
next
  case (Cons ch buf)
  consider "(of_char ch :: int) < 0x80" | "0x80 \<le> (of_char ch :: int) \<and> (of_char ch :: int) \<le> 0xFE"
    | "(of_char ch :: int) = 255"
    using of_char_less_256 [of ch] by linarith
  then show ?case
  proof cases
    case 1
    then show ?thesis using Cons.IH by (simp add: invalid_bytes_def)
  next
    case 2
    then show ?thesis using Cons.IH high_byte_invalid [of ch] by (simp add: invalid_bytes_def)
  next
    case 3
    then have "ch = CHR 0xFF" by (simp add: of_char_255)
    then show ?thesis using Cons.IH byte_ff_ignored by (simp add: invalid_bytes_def)
  qed
qed

text \<open>
  C9. Where plain \<^verbatim>\<open>char\<close> is signed, the byte \<open>0xFF\<close> becomes \<open>-1\<close>, which is \<^verbatim>\<open>EOF\<close>, when
  the loop widens it to \<^verbatim>\<open>int\<close>: the formatter skips it, with no output and no count, and
  every other byte from \<open>0x80\<close> to \<open>0xFE\<close> is classified as invalid and adds one to the
  counter. So a whole run of the formatter on a buffer is the run on the buffer without
  its bytes \<open>0xFF\<close>: the same result, the same output, the same counter. And the counter
  of a whole run is the number of bytes from \<open>0x80\<close> to \<open>0xFE\<close> plus the number of
  invalid bytes below \<open>0x80\<close>, its output that of the hex digits with the diagnostic for
  this counter (the run returns unless the buffer holds a hex digit and twice the width is
  not an \<^verbatim>\<open>int\<close>).
\<close>

theorem byte_ff_is_skipped:
  assumes "sg"
  shows "char_to_int sg (CHR 0xFF) = EOF
       \<and> loop_body sg lang w (CHR 0xFF) s = Inr s
       \<and> (\<forall>ch. 0x80 \<le> (of_char ch :: int) \<and> (of_char ch :: int) \<le> 0xFE \<longrightarrow>
             loop_body sg lang w ch s = Inr (s\<lparr>invalidhexchar := invalidhexchar s + 1\<rparr>))
       \<and> output_hex_escaped_string sg fl buf (int (length buf)) lang w out
           = output_hex_escaped_string sg fl (filter (\<lambda>ch. ch \<noteq> CHR 0xFF) buf)
               (int (length (filter (\<lambda>ch. ch \<noteq> CHR 0xFF) buf))) lang w out
       \<and> output_hex_escaped_string sg fl buf (int (length buf)) lang w out
           = (if width_ok w \<or> hex_digits sg buf = [] then
                Inr \<lparr>ai = int (length (hex_digits sg buf)),
                     invalidhexchar =
                       int (length (filter (\<lambda>ch. 0x80 \<le> (of_char ch :: int)
                                                \<and> (of_char ch :: int) \<le> 0xFE) buf))
                       + int (length (invalid_bytes sg (filter (\<lambda>ch. (of_char ch :: int) < 0x80) buf))),
                     stdout = out @ preamble fl lang @ literal lang w 0 (hex_digits sg buf)
                       @ closing lang
                       @ diagnostic fl
                           (int (length (filter (\<lambda>ch. 0x80 \<le> (of_char ch :: int)
                                                    \<and> (of_char ch :: int) \<le> 0xFE) buf))
                            + int (length (invalid_bytes sg
                                             (filter (\<lambda>ch. (of_char ch :: int) < 0x80) buf))))\<rparr>
              else Inl SignedOverflow)"
proof (intro conjI allI impI)
  show e: "char_to_int sg (CHR 0xFF) = EOF"
    using assms by (simp add: char_to_int_def EOF_def)
  show "loop_body sg lang w (CHR 0xFF) s = Inr s"
    by (rule loop_body_ignored) (simp_all add: e ignored_def is_hex_digit_def EOF_def)
  show "output_hex_escaped_string sg fl buf (int (length buf)) lang w out
           = output_hex_escaped_string sg fl (filter (\<lambda>ch. ch \<noteq> CHR 0xFF) buf)
               (int (length (filter (\<lambda>ch. ch \<noteq> CHR 0xFF) buf))) lang w out"
    using assms by (simp add: formatter_total hex_digits_without_ff invalid_bytes_without_ff)
  show "output_hex_escaped_string sg fl buf (int (length buf)) lang w out
           = (if width_ok w \<or> hex_digits sg buf = [] then
                Inr \<lparr>ai = int (length (hex_digits sg buf)),
                     invalidhexchar =
                       int (length (filter (\<lambda>ch. 0x80 \<le> (of_char ch :: int)
                                                \<and> (of_char ch :: int) \<le> 0xFE) buf))
                       + int (length (invalid_bytes sg (filter (\<lambda>ch. (of_char ch :: int) < 0x80) buf))),
                     stdout = out @ preamble fl lang @ literal lang w 0 (hex_digits sg buf)
                       @ closing lang
                       @ diagnostic fl
                           (int (length (filter (\<lambda>ch. 0x80 \<le> (of_char ch :: int)
                                                    \<and> (of_char ch :: int) \<le> 0xFE) buf))
                            + int (length (invalid_bytes sg
                                             (filter (\<lambda>ch. (of_char ch :: int) < 0x80) buf))))\<rparr>
              else Inl SignedOverflow)"
    using assms count_invalid_bytes [of buf] by (simp add: formatter_total)
next
  fix ch
  assume r: "0x80 \<le> (of_char ch :: int) \<and> (of_char ch :: int) \<le> 0xFE"
  then have "\<not> is_hex_digit (char_to_int sg ch)" "\<not> ignored (char_to_int sg ch)"
    using assms high_byte_invalid [of ch] by auto
  then show "loop_body sg lang w ch s = Inr (s\<lparr>invalidhexchar := invalidhexchar s + 1\<rparr>)"
    by (rule loop_body_invalid)
qed

theorem byte_ff_is_skipped_witness:
  "char_to_int True (CHR 0xFF) = EOF
   \<and> loop_body True 0 0 (CHR 0xFF) \<lparr>ai = 0, invalidhexchar = 0, stdout = []\<rparr>
       = Inr \<lparr>ai = 0, invalidhexchar = 0, stdout = []\<rparr>
   \<and> 0x80 \<le> (of_char (CHR 0xFE) :: int) \<and> (of_char (CHR 0xFE) :: int) \<le> 0xFE
   \<and> loop_body True 0 0 (CHR 0xFE) \<lparr>ai = 0, invalidhexchar = 0, stdout = []\<rparr>
       = Inr \<lparr>ai = 0, invalidhexchar = 1, stdout = []\<rparr>
   \<and> output_hex_escaped_string True \<lparr>verbose_flag = True, interactive_flag = False\<rparr>
       [CHR 0xFF, CHR ''4'', CHR 0xFE, CHR 0xFF, CHR ''1''] 5 0 0 []
     = output_hex_escaped_string True \<lparr>verbose_flag = True, interactive_flag = False\<rparr>
         [CHR ''4'', CHR 0xFE, CHR ''1''] 3 0 0 []
   \<and> output_hex_escaped_string True \<lparr>verbose_flag = True, interactive_flag = False\<rparr>
       [CHR 0xFF, CHR ''4'', CHR 0xFE, CHR 0xFF, CHR ''1''] 5 0 0 []
     = Inr \<lparr>ai = 2, invalidhexchar = 1,
            stdout = [bslash] @ ''x41'' @ [newline]
              @ ''[-] Warning: 1 non-hexadecimal character(s) detected in input.'' @ [newline]\<rparr>"
proof -
  have w: "width_ok 0"
    by (simp add: width_ok_def INT_MIN_def INT_MAX_def)
  note t = byte_ff_is_skipped [of True 0 0 "\<lparr>ai = 0, invalidhexchar = 0, stdout = []\<rparr>"
      "\<lparr>verbose_flag = True, interactive_flag = False\<rparr>"
      "[CHR 0xFF, CHR ''4'', CHR 0xFE, CHR 0xFF, CHR ''1'']" "[]"]
  have a: "char_to_int True (CHR 0xFF) = EOF
   \<and> loop_body True 0 0 (CHR 0xFF) \<lparr>ai = 0, invalidhexchar = 0, stdout = []\<rparr>
       = Inr \<lparr>ai = 0, invalidhexchar = 0, stdout = []\<rparr>
   \<and> 0x80 \<le> (of_char (CHR 0xFE) :: int) \<and> (of_char (CHR 0xFE) :: int) \<le> 0xFE
   \<and> loop_body True 0 0 (CHR 0xFE) \<lparr>ai = 0, invalidhexchar = 0, stdout = []\<rparr>
       = Inr \<lparr>ai = 0, invalidhexchar = 1, stdout = []\<rparr>"
    using t by simp
  have b: "output_hex_escaped_string True \<lparr>verbose_flag = True, interactive_flag = False\<rparr>
       [CHR 0xFF, CHR ''4'', CHR 0xFE, CHR 0xFF, CHR ''1''] 5 0 0 []
     = output_hex_escaped_string True \<lparr>verbose_flag = True, interactive_flag = False\<rparr>
         [CHR ''4'', CHR 0xFE, CHR ''1''] 3 0 0 []"
    using t [THEN conjunct2, THEN conjunct2, THEN conjunct2, THEN conjunct1] by simp
  have c: "output_hex_escaped_string True \<lparr>verbose_flag = True, interactive_flag = False\<rparr>
       [CHR 0xFF, CHR ''4'', CHR 0xFE, CHR 0xFF, CHR ''1''] 5 0 0 []
     = Inr \<lparr>ai = 2, invalidhexchar = 1,
            stdout = [bslash] @ ''x41'' @ [newline]
              @ ''[-] Warning: 1 non-hexadecimal character(s) detected in input.'' @ [newline]\<rparr>"
    using t [THEN conjunct2, THEN conjunct2, THEN conjunct2, THEN conjunct2] w
    by (simp add: hex_digits_def invalid_bytes_def is_hex_digit_def ignored_def char_to_int_def
        EOF_def escaped_def preamble_def closing_def diagnostic_def warning_def printf_d_1)
  from a b c show ?thesis by blast
qed

subsection \<open>C6: the bad-character sequence\<close>

lemma hex_digit_chars: "map hex_digit_char [0..<16] = ''0123456789abcdef''"
  by code_simp

lemma hex_values: "map hex_value ''0123456789abcdef'' = [0..<16]"
  by code_simp

lemma hex_digit_char_nth:
  assumes "k < 16"
  shows "hex_digit_char k = ''0123456789abcdef'' ! k"
proof -
  have "map hex_digit_char [0..<16] ! k = hex_digit_char k"
    using assms by (simp del: upt_Suc)
  then show ?thesis by (simp only: hex_digit_chars)
qed

lemma hex_value_nth:
  assumes "k < 16"
  shows "hex_value (''0123456789abcdef'' ! k) = k"
proof -
  have "map hex_value ''0123456789abcdef'' ! k = hex_value (''0123456789abcdef'' ! k)"
    using assms by (intro nth_map) simp
  then show ?thesis using assms by (simp only: hex_values nth_upt)
qed

lemma lower_hex_pair:
  assumes "n < 256"
  shows "printf_02x n = hex_pair n"
proof (cases "n < 16")
  case True
  then have "lower_hex n = [hex_digit_char n]" by (simp add: lower_hex.simps [of n])
  with True show ?thesis
    by (simp add: printf_02x_def hex_pair_def hex_digit_char_nth)
next
  case False
  with assms have d: "n div 16 < 16" by simp
  then have "lower_hex (n div 16) = [hex_digit_char (n div 16)]"
    by (simp add: lower_hex.simps [of "n div 16"])
  with False have "lower_hex n = [hex_digit_char (n div 16), hex_digit_char (n mod 16)]"
    by (simp add: lower_hex.simps [of n])
  with d show ?thesis
    by (simp add: printf_02x_def hex_pair_def hex_digit_char_nth)
qed

lemma pair_value_hex_pair: "i < 256 \<Longrightarrow> pair_value (hex_pair i) = i"
proof -
  assume "i < 256"
  then have "i div 16 < 16" by simp
  then show ?thesis
    by (simp add: pair_value_def hex_pair_def hex_value_nth)
qed

lemma pairs_of_concat: "pairs_of (concat (map hex_pair xs)) = map hex_pair xs"
  by (induction xs) (simp_all add: hex_pair_def)

lemma length_concat_pairs: "length (concat (map hex_pair xs)) = 2 * length xs"
  by (induction xs) (simp_all add: hex_pair_def)

lemma pair_values: "map pair_value (pairs_of badchar_string) = [1..<256]"
proof -
  have "map pair_value (map hex_pair [1..<256]) = map (\<lambda>i. i) [1..<256]"
    unfolding map_map by (rule map_cong) (simp_all add: pair_value_hex_pair)
  then show ?thesis
    by (simp add: badchar_string_def pairs_of_concat)
qed

lemma distinct_pairs: "distinct (pairs_of badchar_string)"
proof -
  have "distinct (map pair_value (pairs_of badchar_string))"
    by (simp add: pair_values)
  then show ?thesis
    by (simp add: distinct_map)
qed

lemma no_zero_pair: "''00'' \<notin> set (pairs_of badchar_string)"
proof
  assume "''00'' \<in> set (pairs_of badchar_string)"
  then have "pair_value ''00'' \<in> set (map pair_value (pairs_of badchar_string))"
    by (metis image_eqI set_map)
  then show False
    by (simp add: pair_values pair_value_def hex_value_def)
qed

lemma store_at:
  assumes "length xs = nat off" "0 \<le> off"
  shows "store \<lparr>cells = xs @ a # ys\<rparr> off c = Inr \<lparr>cells = xs @ Some c # ys\<rparr>"
proof -
  have "(xs @ a # ys)[length xs := Some c] = xs @ Some c # ys"
    by (rule list_update_length)
  then show ?thesis
    using assms(2) by (simp add: store_def flip: assms(1))
qed

lemma store_past:
  assumes "length xs = nat off"
  shows "store \<lparr>cells = xs\<rparr> off c = Inl OutOfBounds"
  by (simp add: store_def flip: assms)

lemma store_three:
  assumes "length xs = nat off" "0 \<le> off"
  shows "store_string \<lparr>cells = xs @ a1 # a2 # a3 # ys\<rparr> off [c1, c2, c3]
           = Inr \<lparr>cells = xs @ Some c1 # Some c2 # Some c3 # ys\<rparr>"
proof -
  have 1: "length (xs @ [Some c1]) = nat (off + 1)"
    and 2: "length (xs @ [Some c1, Some c2]) = nat (off + 1 + 1)"
    using assms by (simp_all add: nat_add_distrib)
  have p: "0 \<le> off + 1" "0 \<le> off + 1 + 1" using assms(2) by simp_all
  show ?thesis
    using store_at [OF assms, of a1 "a2 # a3 # ys" c1]
      store_at [OF 1 p(1), of a2 "a3 # ys" c2] store_at [OF 2 p(2), of a3 ys c3]
    by simp
qed

lemma store_two_of_three:
  assumes "length xs = nat off" "0 \<le> off"
  shows "store_string \<lparr>cells = xs @ [a1, a2]\<rparr> off [c1, c2, c3] = Inl OutOfBounds"
proof -
  have 1: "length (xs @ [Some c1]) = nat (off + 1)"
    and 2: "length (xs @ [Some c1, Some c2]) = nat (off + 1 + 1)"
    using assms by (simp_all add: nat_add_distrib)
  have p: "0 \<le> off + 1" using assms(2) by simp
  show ?thesis
    using store_at [OF assms, of a1 "[a2]" c1]
      store_at [OF 1 p, of a2 "[]" c2] store_past [OF 2, of c3]
    by simp
qed

text \<open>
  The loop from its \<open>j\<close>-th round on, when the pairs for 1 to \<open>j - 1\<close> are in place. With
  room for the remaining pairs and one more byte it completes; with room for the
  remaining pairs only, the null byte of the last round falls outside the block.
\<close>

lemma badchar_loop_fits:
  assumes "1 \<le> j" "j \<le> 255" "length rest = 2 * (256 - j) + 1"
  shows "badchar_loop (int j) (int (2 * (j - 1)))
           \<lparr>cells = map Some (concat (map hex_pair [1..<j])) @ rest\<rparr>
         = Inr \<lparr>cells = map Some badchar_string @ [Some (CHR 0x00)]\<rparr>"
  using assms
proof (induction "255 - j" arbitrary: j rest)
  case 0
  then have j: "j = 255" by simp
  with 0 obtain a1 a2 a3 where rest: "rest = [a1, a2, a3]"
    by (cases rest; cases "tl rest"; cases "tl (tl rest)"; cases "tl (tl (tl rest))") auto
  let ?xs = "map Some (concat (map hex_pair [1..<255]))"
  have len: "length ?xs = nat 508" by (simp add: length_concat_pairs)
  obtain h l where hl: "hex_pair 255 = [h, l]" by (simp add: hex_pair_def)
  have up: "[Suc 0..<256] = [Suc 0..<255] @ [255::nat]"
    using upt_Suc_append [of "Suc 0" 255] by simp
  have "sprintf_02x \<lparr>cells = ?xs @ [a1, a2, a3]\<rparr> 508 255
          = Inr (\<lparr>cells = ?xs @ [Some h, Some l, Some (CHR 0x00)]\<rparr>, 2)"
    using store_three [OF len, of a1 a2 a3 "[]" h l "CHR 0x00"]
    by (simp add: sprintf_02x_def lower_hex_pair hl)
  then show ?case
    by (simp add: j rest badchar_loop.simps [of 255] badchar_loop.simps [of 256]
        badchar_string_def up hl)
next
  case (Suc n)
  then have j: "j \<le> 254" by simp
  with Suc.prems obtain a1 a2 a3 rest' where rest: "rest = a1 # a2 # a3 # rest'"
    by (cases rest; cases "tl rest"; cases "tl (tl rest)") auto
  let ?xs = "map Some (concat (map hex_pair [1..<j]))"
  have len: "length ?xs = nat (int (2 * (j - 1)))"
    using Suc.prems(1) by (simp add: length_concat_pairs)
  obtain h l where hl: "hex_pair j = [h, l]" by (simp add: hex_pair_def)
  have up: "[1..<Suc j] = [1..<j] @ [j]"
    using Suc.prems(1) by simp
  have sp: "sprintf_02x \<lparr>cells = ?xs @ rest\<rparr> (int (2 * (j - 1))) (nat (int j))
          = Inr (\<lparr>cells = ?xs @ Some h # Some l # Some (CHR 0x00) # rest'\<rparr>, 2)"
    using store_three [OF len, of a1 a2 a3 rest' h l "CHR 0x00"] j
    by (simp add: sprintf_02x_def lower_hex_pair hl rest)
  have next_cells: "?xs @ Some h # Some l # Some (CHR 0x00) # rest'
          = map Some (concat (map hex_pair [1..<Suc j])) @ (Some (CHR 0x00) # rest')"
    by (simp only: up) (simp add: hl)
  from Suc.prems(1) have j1: "j = Suc (j - 1)" by simp
  have idx: "int j + 1 = int (Suc j)" "int (2 * (j - 1)) + 2 = int (2 * (Suc j - 1))"
    using j1 by simp_all
  have "badchar_loop (int j) (int (2 * (j - 1))) \<lparr>cells = ?xs @ rest\<rparr>
          = badchar_loop (int j + 1) (int (2 * (j - 1)) + 2)
              \<lparr>cells = ?xs @ Some h # Some l # Some (CHR 0x00) # rest'\<rparr>"
    using j sp by (subst badchar_loop.simps) simp
  also have "\<dots> = badchar_loop (int (Suc j)) (int (2 * (Suc j - 1)))
              \<lparr>cells = map Some (concat (map hex_pair [1..<Suc j])) @ (Some (CHR 0x00) # rest')\<rparr>"
    by (simp only: idx next_cells)
  also have "\<dots> = Inr \<lparr>cells = map Some badchar_string @ [Some (CHR 0x00)]\<rparr>"
  proof (rule Suc.hyps(1))
    show "n = 255 - Suc j" using Suc.hyps(2) by simp
    show "1 \<le> Suc j" by simp
    show "Suc j \<le> 255" using j by simp
    show "length (Some (CHR 0x00) # rest') = 2 * (256 - Suc j) + 1"
      using Suc.prems(1,3) j by (simp add: rest)
  qed
  finally show ?case .
qed

lemma badchar_loop_overruns:
  assumes "1 \<le> j" "j \<le> 255" "length rest = 2 * (256 - j)"
  shows "badchar_loop (int j) (int (2 * (j - 1)))
           \<lparr>cells = map Some (concat (map hex_pair [1..<j])) @ rest\<rparr>
         = Inl OutOfBounds"
  using assms
proof (induction "255 - j" arbitrary: j rest)
  case 0
  then have j: "j = 255" by simp
  with 0 obtain a1 a2 where rest: "rest = [a1, a2]"
    by (cases rest; cases "tl rest"; cases "tl (tl rest)") auto
  let ?xs = "map Some (concat (map hex_pair [1..<255]))"
  have len: "length ?xs = nat 508" by (simp add: length_concat_pairs)
  obtain h l where hl: "hex_pair 255 = [h, l]" by (simp add: hex_pair_def)
  have "sprintf_02x \<lparr>cells = ?xs @ [a1, a2]\<rparr> 508 255 = Inl OutOfBounds"
    using store_two_of_three [OF len, of a1 a2 h l "CHR 0x00"]
    by (simp add: sprintf_02x_def lower_hex_pair hl)
  then show ?case
    by (simp add: j rest badchar_loop.simps [of 255])
next
  case (Suc n)
  then have j: "j \<le> 254" by simp
  with Suc.prems obtain a1 a2 a3 rest' where rest: "rest = a1 # a2 # a3 # rest'"
    by (cases rest; cases "tl rest"; cases "tl (tl rest)") auto
  let ?xs = "map Some (concat (map hex_pair [1..<j]))"
  have len: "length ?xs = nat (int (2 * (j - 1)))"
    using Suc.prems(1) by (simp add: length_concat_pairs)
  obtain h l where hl: "hex_pair j = [h, l]" by (simp add: hex_pair_def)
  have up: "[1..<Suc j] = [1..<j] @ [j]"
    using Suc.prems(1) by simp
  have sp: "sprintf_02x \<lparr>cells = ?xs @ rest\<rparr> (int (2 * (j - 1))) (nat (int j))
          = Inr (\<lparr>cells = ?xs @ Some h # Some l # Some (CHR 0x00) # rest'\<rparr>, 2)"
    using store_three [OF len, of a1 a2 a3 rest' h l "CHR 0x00"] j
    by (simp add: sprintf_02x_def lower_hex_pair hl rest)
  have next_cells: "?xs @ Some h # Some l # Some (CHR 0x00) # rest'
          = map Some (concat (map hex_pair [1..<Suc j])) @ (Some (CHR 0x00) # rest')"
    by (simp only: up) (simp add: hl)
  from Suc.prems(1) have j1: "j = Suc (j - 1)" by simp
  have idx: "int j + 1 = int (Suc j)" "int (2 * (j - 1)) + 2 = int (2 * (Suc j - 1))"
    using j1 by simp_all
  have "badchar_loop (int j) (int (2 * (j - 1))) \<lparr>cells = ?xs @ rest\<rparr>
          = badchar_loop (int j + 1) (int (2 * (j - 1)) + 2)
              \<lparr>cells = ?xs @ Some h # Some l # Some (CHR 0x00) # rest'\<rparr>"
    using j sp by (subst badchar_loop.simps) simp
  also have "\<dots> = badchar_loop (int (Suc j)) (int (2 * (Suc j - 1)))
              \<lparr>cells = map Some (concat (map hex_pair [1..<Suc j])) @ (Some (CHR 0x00) # rest')\<rparr>"
    by (simp only: idx next_cells)
  also have "\<dots> = Inl OutOfBounds"
  proof (rule Suc.hyps(1))
    show "n = 255 - Suc j" using Suc.hyps(2) by simp
    show "1 \<le> Suc j" by simp
    show "Suc j \<le> 255" using j by simp
    show "length (Some (CHR 0x00) # rest') = 2 * (256 - Suc j)"
      using Suc.prems(1,3) j by (simp add: rest)
  qed
  finally show ?case .
qed

lemma badchar_loop_start:
  "int 1 = 1" "int (2 * (1 - 1)) = 0"
  "map Some (concat (map hex_pair [1..<1])) @ xs = xs"
  by simp_all

lemma loop_in_510_bytes:
  "badchar_loop 1 0 \<lparr>cells = replicate (nat 510) None\<rparr> = Inl OutOfBounds"
proof -
  have len: "length (replicate (nat 510) (None :: char option)) = 2 * (256 - 1)"
    by (simp only: length_replicate)
  have "badchar_loop (int 1) (int (2 * (1 - 1)))
          \<lparr>cells = map Some (concat (map hex_pair [1..<1])) @ replicate (nat 510) None\<rparr>
        = Inl OutOfBounds"
    by (rule badchar_loop_overruns [OF _ _ len]) simp_all
  then show ?thesis
    by (simp only: badchar_loop_start)
qed

lemma loop_in_511_bytes:
  "badchar_loop 1 0 \<lparr>cells = replicate (nat 511) None\<rparr>
     = Inr \<lparr>cells = map Some badchar_string @ [Some (CHR 0x00)]\<rparr>"
proof -
  have len: "length (replicate (nat 511) (None :: char option)) = 2 * (256 - 1) + 1"
    by (simp only: length_replicate)
  have "badchar_loop (int 1) (int (2 * (1 - 1)))
          \<lparr>cells = map Some (concat (map hex_pair [1..<1])) @ replicate (nat 511) None\<rparr>
        = Inr \<lparr>cells = map Some badchar_string @ [Some (CHR 0x00)]\<rparr>"
    by (rule badchar_loop_fits [OF _ _ len]) simp_all
  then show ?thesis
    by (simp only: badchar_loop_start)
qed

lemma generator_result:
  assumes "heap e 510"
  shows "generate_badchar_sequence e st = Inl (Undefined OutOfBounds st)"
proof -
  have alloc: "allocate_dynamic_memory e (1 * BADCHAR_HEX_SEQLEN) st
        = Inr \<lparr>cells = replicate (nat 510) None\<rparr>"
    using assms by (simp only: allocate_dynamic_memory_def BADCHAR_HEX_SEQLEN_def mult_1 if_True)
  show ?thesis
    by (simp only: generate_badchar_sequence_def alloc sum.case loop_in_510_bytes)
qed

lemma length_badchar_string: "length badchar_string = 510"
  by (simp add: badchar_string_def length_concat_pairs)

lemma printf_d_510: "printf_d 510 = ''510''"
  by code_simp

lemma generator_out_of_memory:
  assumes "\<not> heap e 510"
  shows "generate_badchar_sequence e st
           = Inl (Exit 1 (st\<lparr>sout := sout st @ ''510 byte(s) memory allocation error.''\<rparr>))"
proof -
  have alloc: "allocate_dynamic_memory e (1 * BADCHAR_HEX_SEQLEN) st
        = Inl (Exit EXIT_FAILURE
                 (print_out (printf_d 510 @ '' byte(s) memory allocation error.'') st))"
    using assms by (simp only: allocate_dynamic_memory_def BADCHAR_HEX_SEQLEN_def mult_1 if_False)
  show ?thesis
    by (simp only: generate_badchar_sequence_def alloc sum.case printf_d_510)
       (simp add: EXIT_FAILURE_def print_out_def)
qed

lemma last_store_past_the_block:
  "store \<lparr>cells = map Some badchar_string\<rparr> 510 (CHR 0x00) = Inl OutOfBounds"
  by (simp add: store_def length_badchar_string)

lemma main_badchar:
  "main sample_env 2 ''bstrings'' [Returns 98 None (CHR ''b'')] 2 sample_locals
     = Undefined OutOfBounds \<lparr>sout = [], serr = []\<rparr>"
proof -
  have h: "heap sample_env 510" by (simp add: sample_env_def)
  have p: "parse_options sample_env ''bstrings'' [Returns 98 None (CHR ''b'')]
             (\<lparr>verbose_flag = False, interactive_flag = False\<rparr>,
              sample_locals\<lparr>doLimitBinaryStringWidth := False, output_lang := 0, string_width := 0\<rparr>,
              \<lparr>sout = [], serr = []\<rparr>)
        = Inr (\<lparr>verbose_flag = False, interactive_flag = False\<rparr>,
               sample_locals\<lparr>doOutputBadCharString := True\<rparr>, \<lparr>sout = [], serr = []\<rparr>)"
    by (simp add: option_case_def sample_locals_def)
  show ?thesis
    using p by (simp add: main_def Let_def generator_result [OF h] width_notice_def sample_locals_def)
qed

text \<open>
  C6. The claim says that the generator always produces exactly 510 characters, the
  two-character lower-case hexadecimal representations of 1 to 255 in ascending order,
  and that this buffer is passed to the formatter with the length 510. The generator
  allocates 510 bytes and lets \<^verbatim>\<open>sprintf\<close> store each pair together with a terminating null
  byte. The 255th call stores \<^verbatim>\<open>ff\<close> at the offsets 508 and 509 and its null byte at the
  offset 510, one past the end of the block: the behaviour is undefined there, so the
  generator returns no buffer and \<^verbatim>\<open>main\<close> under \<^verbatim>\<open>-b\<close> does not reach the formatter. (When
  the allocation fails, the generator exits with the status 1.) In a block of 511 bytes
  the same loop runs to its end and leaves exactly the 510 characters of the claim,
  followed by the null byte: read as numbers, the pairs are 1, 2, ..., 255, strictly
  ascending, without a duplicate and without \<^verbatim>\<open>00\<close>.
\<close>

theorem badchar_sequence:
  "generate_badchar_sequence e st
     = (if heap e 510 then Inl (Undefined OutOfBounds st)
        else Inl (Exit 1 (st\<lparr>sout := sout st @ ''510 byte(s) memory allocation error.''\<rparr>)))
   \<and> badchar_loop 1 0 \<lparr>cells = replicate 510 None\<rparr> = Inl OutOfBounds
   \<and> store \<lparr>cells = map Some badchar_string\<rparr> 510 (CHR 0x00) = Inl OutOfBounds
   \<and> badchar_loop 1 0 \<lparr>cells = replicate 511 None\<rparr>
       = Inr \<lparr>cells = map Some badchar_string @ [Some (CHR 0x00)]\<rparr>
   \<and> length badchar_string = 510
   \<and> map pair_value (pairs_of badchar_string) = [1..<256]
   \<and> sorted_wrt (<) (map pair_value (pairs_of badchar_string))
   \<and> distinct (pairs_of badchar_string)
   \<and> ''00'' \<notin> set (pairs_of badchar_string)
   \<and> main sample_env 2 ''bstrings'' [Returns 98 None (CHR ''b'')] 2 sample_locals
       = Undefined OutOfBounds \<lparr>sout = [], serr = []\<rparr>"
proof (intro conjI)
  show "generate_badchar_sequence e st
     = (if heap e 510 then Inl (Undefined OutOfBounds st)
        else Inl (Exit 1 (st\<lparr>sout := sout st @ ''510 byte(s) memory allocation error.''\<rparr>)))"
    using generator_result [of e st] generator_out_of_memory [of e st] by (cases "heap e 510") simp_all
  have n510: "(510::nat) = nat 510" and n511: "(511::nat) = nat 511"
    by (simp_all only: nat_numeral)
  show "badchar_loop 1 0 \<lparr>cells = replicate 510 None\<rparr> = Inl OutOfBounds"
    by (subst n510) (rule loop_in_510_bytes)
  show "badchar_loop 1 0 \<lparr>cells = replicate 511 None\<rparr>
       = Inr \<lparr>cells = map Some badchar_string @ [Some (CHR 0x00)]\<rparr>"
    by (subst n511) (rule loop_in_511_bytes)
  show "sorted_wrt (<) (map pair_value (pairs_of badchar_string))"
    by (simp only: pair_values) simp
qed (simp_all only: last_store_past_the_block length_badchar_string pair_values distinct_pairs
       no_zero_pair main_badchar not_False_eq_True)

subsection \<open>C7: a file that cannot be opened\<close>

lemma option_case_streams:
  "option_case e argv0 call (fl, lv, st) = Inr (fl', lv', st') \<Longrightarrow> st' = st"
  by (cases call) (auto simp: option_case_def Let_def split: if_splits option.splits)

lemma parse_options_streams:
  "parse_options e argv0 calls (fl, lv, st) = Inr (fl', lv', st') \<Longrightarrow> st' = st"
proof (induction calls arbitrary: fl lv st)
  case Nil
  then show ?case by simp
next
  case (Cons call calls)
  then obtain fl1 lv1 st1 where 1: "option_case e argv0 call (fl, lv, st) = Inr (fl1, lv1, st1)"
    and 2: "parse_options e argv0 calls (fl1, lv1, st1) = Inr (fl', lv', st')"
    by (auto split: sum.splits)
  from option_case_streams [OF 1] Cons.IH [OF 2] show ?case by simp
qed

text \<open>
  C7 (amended). For every file path that cannot be opened for reading,
  \<^verbatim>\<open>read_from_file\<close> ends the process with the exit status 1 after printing the line
  \<^verbatim>\<open>Error: input filename "PATH" cannot be read.\<close>, with the path in it, and the line goes to
  standard output. So do the dump-file action and the hex-escape action with a file as
  input: the line is the last thing on standard output (after the notices of verbose mode
  under hex-escape), and standard error stays as it was. The claim has the message but no
  output on standard output.
\<close>

theorem unreadable_file:
  "(files e filename = None \<longrightarrow>
      read_from_file e filename array_size mode st0
        = Inl (Exit EXIT_FAILURE
                (st0\<lparr>sout := sout st0 @ ''Error: input filename '' @ [dquote] @ filename @ [dquote]
                                @ '' cannot be read.'' @ [newline]\<rparr>)))
   \<and> EXIT_FAILURE = 1
   \<and> (parse_options e argv0 calls
             (\<lparr>verbose_flag = False, interactive_flag = False\<rparr>,
              ind\<lparr>doLimitBinaryStringWidth := False, output_lang := 0, string_width := 0\<rparr>,
              \<lparr>sout = [], serr = []\<rparr>) = Inr (fl, lv, st)
        \<and> \<not> (optind < argc \<or> argc = 1)
        \<and> files e (fread_filename lv) = None \<longrightarrow>
        (\<not> doOutputHexEscapedString lv \<and> doHexDumpFile lv \<longrightarrow>
           main e argc argv0 calls optind ind
             = Exit 1 \<lparr>sout = ''Error: input filename '' @ [dquote] @ fread_filename lv @ [dquote]
                               @ '' cannot be read.'' @ [newline],
                       serr = []\<rparr>)
        \<and> (doOutputHexEscapedString lv \<and> (doHexDumpFile lv \<or> doReadFromFile lv) \<longrightarrow>
           main e argc argv0 calls optind ind
             = Exit 1 \<lparr>sout = sout (width_notice fl lv
                                 ''[*] Convert hexadecimal input to an escaped binary string.''
                                 \<lparr>sout = [], serr = []\<rparr>)
                               @ ''Error: input filename '' @ [dquote] @ fread_filename lv @ [dquote]
                               @ '' cannot be read.'' @ [newline],
                       serr = []\<rparr>))"
proof (intro conjI impI)
  show "EXIT_FAILURE = 1" by (simp add: EXIT_FAILURE_def)
next
  assume "files e filename = None"
  then show "read_from_file e filename array_size mode st0
        = Inl (Exit EXIT_FAILURE
                (st0\<lparr>sout := sout st0 @ ''Error: input filename '' @ [dquote] @ filename @ [dquote]
                                @ '' cannot be read.'' @ [newline]\<rparr>))"
    by (simp add: read_from_file_def print_out_def)
next
  assume a: "parse_options e argv0 calls
             (\<lparr>verbose_flag = False, interactive_flag = False\<rparr>,
              ind\<lparr>doLimitBinaryStringWidth := False, output_lang := 0, string_width := 0\<rparr>,
              \<lparr>sout = [], serr = []\<rparr>) = Inr (fl, lv, st)
        \<and> \<not> (optind < argc \<or> argc = 1)
        \<and> files e (fread_filename lv) = None"
    and b: "\<not> doOutputHexEscapedString lv \<and> doHexDumpFile lv"
  from a have st: "st = \<lparr>sout = [], serr = []\<rparr>"
    using parse_options_streams by blast
  from a b show "main e argc argv0 calls optind ind
             = Exit 1 \<lparr>sout = ''Error: input filename '' @ [dquote] @ fread_filename lv @ [dquote]
                               @ '' cannot be read.'' @ [newline],
                       serr = []\<rparr>"
    by (simp add: main_def read_from_file_def print_out_def EXIT_FAILURE_def st)
next
  assume a: "parse_options e argv0 calls
             (\<lparr>verbose_flag = False, interactive_flag = False\<rparr>,
              ind\<lparr>doLimitBinaryStringWidth := False, output_lang := 0, string_width := 0\<rparr>,
              \<lparr>sout = [], serr = []\<rparr>) = Inr (fl, lv, st)
        \<and> \<not> (optind < argc \<or> argc = 1)
        \<and> files e (fread_filename lv) = None"
    and b: "doOutputHexEscapedString lv \<and> (doHexDumpFile lv \<or> doReadFromFile lv)"
  from a have st: "st = \<lparr>sout = [], serr = []\<rparr>"
    using parse_options_streams by blast
  have se: "serr (width_notice fl lv h \<lparr>sout = [], serr = []\<rparr>) = []" for h
    by (simp add: width_notice_def print_out_def Let_def)
  have rec: "x\<lparr>sout := y\<rparr> = \<lparr>sout = y, serr = serr x\<rparr>" for x :: streams and y
    by (cases x) simp
  from a b show "main e argc argv0 calls optind ind
             = Exit 1 \<lparr>sout = sout (width_notice fl lv
                                 ''[*] Convert hexadecimal input to an escaped binary string.''
                                 \<lparr>sout = [], serr = []\<rparr>)
                               @ ''Error: input filename '' @ [dquote] @ fread_filename lv @ [dquote]
                               @ '' cannot be read.'' @ [newline],
                       serr = []\<rparr>"
    by (auto simp add: main_def collect_input_def read_from_file_def print_out_def
        EXIT_FAILURE_def st Let_def rec se)
qed

theorem unreadable_file_witness:
  "files sample_env ''/nonexistent'' = None
   \<and> read_from_file sample_env ''/nonexistent'' 1 2 \<lparr>sout = [], serr = []\<rparr>
       = Inl (Exit 1 \<lparr>sout = ''Error: input filename '' @ [dquote] @ ''/nonexistent'' @ [dquote]
                               @ '' cannot be read.'' @ [newline],
                       serr = []\<rparr>)
   \<and> parse_options sample_env ''bstrings''
        [Stores_verbose True, Returns 120 None (CHR ''x''), Returns 102 (Some ''/nonexistent'') (CHR ''f'')]
        (\<lparr>verbose_flag = False, interactive_flag = False\<rparr>,
         sample_locals\<lparr>doLimitBinaryStringWidth := False, output_lang := 0, string_width := 0\<rparr>,
         \<lparr>sout = [], serr = []\<rparr>)
       = Inr (\<lparr>verbose_flag = True, interactive_flag = False\<rparr>,
              sample_locals\<lparr>doOutputHexEscapedString := True, doReadFromFile := True,
                             fread_filename := ''/nonexistent''\<rparr>,
              \<lparr>sout = [], serr = []\<rparr>)
   \<and> main sample_env 5 ''bstrings''
        [Stores_verbose True, Returns 120 None (CHR ''x''), Returns 102 (Some ''/nonexistent'') (CHR ''f'')]
        5 sample_locals
       = Exit 1 \<lparr>sout = ''[*] Convert hexadecimal input to an escaped binary string.'' @ [newline]
                         @ ''Error: input filename '' @ [dquote] @ ''/nonexistent'' @ [dquote]
                         @ '' cannot be read.'' @ [newline],
                 serr = []\<rparr>"
proof -
  have f: "files sample_env ''/nonexistent'' = None"
    by (simp add: sample_env_def)
  have r: "read_from_file sample_env ''/nonexistent'' 1 2 \<lparr>sout = [], serr = []\<rparr>
       = Inl (Exit 1 \<lparr>sout = ''Error: input filename '' @ [dquote] @ ''/nonexistent'' @ [dquote]
                               @ '' cannot be read.'' @ [newline],
                       serr = []\<rparr>)"
    using f unreadable_file [where e = sample_env and filename = "''/nonexistent''"
      and array_size = 1 and mode = 2 and ?st0.0 = "\<lparr>sout = [], serr = []\<rparr>"]
    by (simp add: EXIT_FAILURE_def)
  have p: "parse_options sample_env ''bstrings''
        [Stores_verbose True, Returns 120 None (CHR ''x''), Returns 102 (Some ''/nonexistent'') (CHR ''f'')]
        (\<lparr>verbose_flag = False, interactive_flag = False\<rparr>,
         sample_locals\<lparr>doLimitBinaryStringWidth := False, output_lang := 0, string_width := 0\<rparr>,
         \<lparr>sout = [], serr = []\<rparr>)
       = Inr (\<lparr>verbose_flag = True, interactive_flag = False\<rparr>,
              sample_locals\<lparr>doOutputHexEscapedString := True, doReadFromFile := True,
                             fread_filename := ''/nonexistent''\<rparr>,
              \<lparr>sout = [], serr = []\<rparr>)"
    by (simp add: option_case_def sample_locals_def snprintf_s_def MAX_FILENAME_LENGTH_def)
  have m: "main sample_env 5 ''bstrings''
        [Stores_verbose True, Returns 120 None (CHR ''x''), Returns 102 (Some ''/nonexistent'') (CHR ''f'')]
        5 sample_locals
       = Exit 1 \<lparr>sout = ''[*] Convert hexadecimal input to an escaped binary string.'' @ [newline]
                         @ ''Error: input filename '' @ [dquote] @ ''/nonexistent'' @ [dquote]
                         @ '' cannot be read.'' @ [newline],
                 serr = []\<rparr>"
    using f p unreadable_file [where e = sample_env and ?argv0.0 = "''bstrings''"
      and calls = "[Stores_verbose True, Returns 120 None (CHR ''x''),
                    Returns 102 (Some ''/nonexistent'') (CHR ''f'')]"
      and ind = sample_locals and fl = "\<lparr>verbose_flag = True, interactive_flag = False\<rparr>"
      and lv = "sample_locals\<lparr>doOutputHexEscapedString := True, doReadFromFile := True,
                             fread_filename := ''/nonexistent''\<rparr>"
      and st = "\<lparr>sout = [], serr = []\<rparr>" and optind = 5 and argc = 5]
    by (simp add: sample_locals_def width_notice_def print_out_def)
  from f r p m show ?thesis by blast
qed

theorem unreadable_file_counterexample:
  "main sample_env 3 ''bstrings'' [Returns 68 (Some ''/nonexistent'') (CHR ''D'')] 3 sample_locals
     = Exit 1 \<lparr>sout = ''Error: input filename '' @ [dquote] @ ''/nonexistent'' @ [dquote]
                       @ '' cannot be read.'' @ [newline],
               serr = []\<rparr>"
  by (simp add: main_def option_case_def sample_env_def sample_locals_def read_from_file_def
      print_out_def EXIT_FAILURE_def snprintf_s_def MAX_FILENAME_LENGTH_def)

subsection \<open>C8: the usage text\<close>

text \<open>
  C8 (amended). For every invocation whose option parsing runs to its end, if no argument
  was given at all (\<^verbatim>\<open>argc == 1\<close>) or an argument that is not an option is left
  (\<^verbatim>\<open>optind < argc\<close>), the program prints the usage text to standard output and exits with
  the status 0, whichever action and modifier flags were given. The claim has this for
  every invocation that selects none of the three actions; \<^verbatim>\<open>main\<close> tests the two
  conditions above and not the action flags.
\<close>

theorem usage_on_stdout:
  "(parse_options e argv0 calls
             (\<lparr>verbose_flag = False, interactive_flag = False\<rparr>,
              ind\<lparr>doLimitBinaryStringWidth := False, output_lang := 0, string_width := 0\<rparr>,
              \<lparr>sout = [], serr = []\<rparr>) = Inr (fl, lv, st)
      \<and> (optind < argc \<or> argc = 1) \<longrightarrow>
      main e argc argv0 calls optind ind
        = Exit EXIT_SUCCESS \<lparr>sout = print_usage argv0, serr = []\<rparr>)
   \<and> EXIT_SUCCESS = 0"
proof (intro conjI impI)
  show "EXIT_SUCCESS = 0" by (simp add: EXIT_SUCCESS_def)
next
  assume a: "parse_options e argv0 calls
             (\<lparr>verbose_flag = False, interactive_flag = False\<rparr>,
              ind\<lparr>doLimitBinaryStringWidth := False, output_lang := 0, string_width := 0\<rparr>,
              \<lparr>sout = [], serr = []\<rparr>) = Inr (fl, lv, st)
      \<and> (optind < argc \<or> argc = 1)"
  then have st: "st = \<lparr>sout = [], serr = []\<rparr>"
    using parse_options_streams by blast
  from a show "main e argc argv0 calls optind ind
        = Exit EXIT_SUCCESS \<lparr>sout = print_usage argv0, serr = []\<rparr>"
    by (auto simp add: main_def st print_out_def)
qed

theorem usage_on_stdout_witness:
  "parse_options sample_env ''bstrings'' [Stores_verbose True, Returns 119 (Some ''4'') (CHR ''w'')]
             (\<lparr>verbose_flag = False, interactive_flag = False\<rparr>,
              sample_locals\<lparr>doLimitBinaryStringWidth := False, output_lang := 0, string_width := 0\<rparr>,
              \<lparr>sout = [], serr = []\<rparr>)
       = Inr (\<lparr>verbose_flag = True, interactive_flag = False\<rparr>,
              sample_locals\<lparr>doLimitBinaryStringWidth := True\<rparr>, \<lparr>sout = [], serr = []\<rparr>)
   \<and> (4::int) < 5
   \<and> main sample_env 5 ''bstrings'' [Stores_verbose True, Returns 119 (Some ''4'') (CHR ''w'')] 4
        sample_locals
        = Exit 0 \<lparr>sout = print_usage ''bstrings'', serr = []\<rparr>"
proof -
  have p: "parse_options sample_env ''bstrings'' [Stores_verbose True, Returns 119 (Some ''4'') (CHR ''w'')]
             (\<lparr>verbose_flag = False, interactive_flag = False\<rparr>,
              sample_locals\<lparr>doLimitBinaryStringWidth := False, output_lang := 0, string_width := 0\<rparr>,
              \<lparr>sout = [], serr = []\<rparr>)
       = Inr (\<lparr>verbose_flag = True, interactive_flag = False\<rparr>,
              sample_locals\<lparr>doLimitBinaryStringWidth := True\<rparr>, \<lparr>sout = [], serr = []\<rparr>)"
    by (simp add: option_case_def sample_locals_def sample_env_def)
  from p usage_on_stdout [where e = sample_env and ?argv0.0 = "''bstrings''"
      and calls = "[Stores_verbose True, Returns 119 (Some ''4'') (CHR ''w'')]"
      and ind = sample_locals and fl = "\<lparr>verbose_flag = True, interactive_flag = False\<rparr>"
      and lv = "sample_locals\<lparr>doLimitBinaryStringWidth := True\<rparr>"
      and st = "\<lparr>sout = [], serr = []\<rparr>" and optind = 4 and argc = 5]
  have "main sample_env 5 ''bstrings'' [Stores_verbose True, Returns 119 (Some ''4'') (CHR ''w'')] 4
        sample_locals
        = Exit 0 \<lparr>sout = print_usage ''bstrings'', serr = []\<rparr>"
    by (simp add: EXIT_SUCCESS_def)
  with p show ?thesis by simp
qed

theorem usage_on_stdout_counterexample:
  "main sample_env 2 ''bstrings'' [Stores_verbose True] 2 sample_locals
     = Exit 0 \<lparr>sout = [], serr = []\<rparr>"
  by (simp add: main_def option_case_def sample_locals_def)

subsection \<open>C10: the length handed to the formatter\<close>

lemma int_add_ok: "INT_MIN \<le> a + b \<Longrightarrow> a + b \<le> INT_MAX \<Longrightarrow> int_add a b = Inr (a + b)"
  by (simp add: int_add_def)

lemma realloc_grow:
  assumes "heap e (int (length xs) + int k)"
  shows "change_dynamic_memory e \<lparr>cells = xs\<rparr> (int (length xs) + int k) st
           = Inr \<lparr>cells = xs @ replicate k None\<rparr>"
proof -
  have "nat (int (length xs) + int k) = length xs + k" by simp
  then show ?thesis
    using assms by (simp add: change_dynamic_memory_def del: of_nat_add)
qed

lemma store_input_run:
  assumes "\<forall>k. 0 < k \<and> k \<le> int (length xs + length cs) + 1 \<longrightarrow> heap e k"
    and "int (length xs + length cs) + 1 \<le> INT_MAX"
  shows "store_input e cs \<lparr>cells = map Some xs @ [None]\<rparr>
           (int (length xs) + 1) (int (length xs)) st
         = Inr (\<lparr>cells = map Some (xs @ cs) @ [None]\<rparr>,
                int (length (xs @ cs)) + 1)"
  using assms
proof (induction cs arbitrary: xs)
  case Nil
  then show ?case by simp
next
  case (Cons c cs)
  have st: "store \<lparr>cells = map Some xs @ [None]\<rparr> (int (length xs)) c
              = Inr \<lparr>cells = map Some xs @ [Some c]\<rparr>"
    using store_at [of "map Some xs" "int (length xs)" None "[]" c] by simp
  have add: "int_add (int (length xs) + 1) 1 = Inr (int (length xs) + 1 + 1)"
    using Cons.prems(2) by (intro int_add_ok) (simp_all add: INT_MIN_def)
  have hp: "heap e (int (length (map Some xs @ [Some c])) + int 1)"
    using Cons.prems(1) by simp
  have re: "change_dynamic_memory e \<lparr>cells = map Some xs @ [Some c]\<rparr>
              (int (length xs) + 1 + 1) st
              = Inr \<lparr>cells = map Some (xs @ [c]) @ [None]\<rparr>"
    using realloc_grow [OF hp, of st] by simp
  have ih: "store_input e cs \<lparr>cells = map Some (xs @ [c]) @ [None]\<rparr>
              (int (length (xs @ [c])) + 1) (int (length (xs @ [c]))) st
            = Inr (\<lparr>cells = map Some ((xs @ [c]) @ cs) @ [None]\<rparr>,
                   int (length ((xs @ [c]) @ cs)) + 1)"
    using Cons.prems by (intro Cons.IH) simp_all
  have ih': "store_input e cs \<lparr>cells = map Some (xs @ [c]) @ [None]\<rparr>
              (int (length xs) + 1 + 1) (int (length xs) + 1) st
            = Inr (\<lparr>cells = map Some (xs @ c # cs) @ [None]\<rparr>,
                   int (length (xs @ c # cs)) + 1)"
    using ih by (simp add: ac_simps)
  show ?case
    by (simp only: store_input.simps Let_def st add sum.case mult_1 re ih')
qed

lemma file_loop_raw:
  assumes "\<forall>k. 0 < k \<and> k \<le> int (length xs + length cs) + 1 \<longrightarrow> heap e k"
    and "int (length xs + length cs) + 1 \<le> INT_MAX"
  shows "file_loop e 1 cs (Some \<lparr>cells = map Some xs @ [None]\<rparr>)
           (int (length xs) + 1) (int (length xs)) st
         = Inr (Some \<lparr>cells = map Some (xs @ cs) @ [None]\<rparr>,
                int (length (xs @ cs)) + 1)"
  using assms
proof (induction cs arbitrary: xs)
  case Nil
  then show ?case by simp
next
  case (Cons c cs)
  have st: "store \<lparr>cells = map Some xs @ [None]\<rparr> (int (length xs)) c
              = Inr \<lparr>cells = map Some xs @ [Some c]\<rparr>"
    using store_at [of "map Some xs" "int (length xs)" None "[]" c] by simp
  have add: "int_add (int (length xs) + 1) 1 = Inr (int (length xs) + 1 + 1)"
    using Cons.prems(2) by (intro int_add_ok) (simp_all add: INT_MIN_def)
  have hp: "heap e (int (length (map Some xs @ [Some c])) + int 1)"
    using Cons.prems(1) by simp
  have re: "change_dynamic_memory e \<lparr>cells = map Some xs @ [Some c]\<rparr>
              (int (length xs) + 1 + 1) st
              = Inr \<lparr>cells = map Some (xs @ [c]) @ [None]\<rparr>"
    using realloc_grow [OF hp, of st] by simp
  have ih: "file_loop e 1 cs (Some \<lparr>cells = map Some (xs @ [c]) @ [None]\<rparr>)
              (int (length (xs @ [c])) + 1) (int (length (xs @ [c]))) st
            = Inr (Some \<lparr>cells = map Some ((xs @ [c]) @ cs) @ [None]\<rparr>,
                   int (length ((xs @ [c]) @ cs)) + 1)"
    using Cons.prems by (intro Cons.IH) simp_all
  have ih': "file_loop e 1 cs (Some \<lparr>cells = map Some (xs @ [c]) @ [None]\<rparr>)
              (int (length xs) + 1 + 1) (int (length xs) + 1) st
            = Inr (Some \<lparr>cells = map Some (xs @ c # cs) @ [None]\<rparr>,
                   int (length (xs @ c # cs)) + 1)"
    using ih by (simp add: ac_simps)
  show ?case
    by (simp only: file_loop.simps Let_def st add sum.case option.case mult_1 re ih' if_True
        simp_thms)
qed

lemma hex_pair_parts: "\<exists>h l. hex_pair n = [h, l]"
  by (simp add: hex_pair_def)

lemma file_loop_hex:
  assumes "\<forall>k. 0 < k \<and> k \<le> int (length ds + 2 * length cs) + 2 \<longrightarrow> heap e k"
    and "int (length ds + 2 * length cs) + 2 \<le> INT_MAX"
  shows "file_loop e 2 cs (Some \<lparr>cells = map Some ds @ [None, None]\<rparr>)
           (int (length ds) + 2) (int (length ds)) st
         = Inr (Some \<lparr>cells = map Some (ds @ concat (map (\<lambda>c. hex_pair (of_char c)) cs))
                               @ [None, None]\<rparr>,
                int (length (ds @ concat (map (\<lambda>c. hex_pair (of_char c)) cs))) + 2)"
  using assms
proof (induction cs arbitrary: ds)
  case Nil
  then show ?case by simp
next
  case (Cons c cs)
  obtain h l where hl: "hex_pair (of_char c) = [h, l]"
    using hex_pair_parts by blast
  have xc: "take 2 (printf_02x (of_char c)) = [h, l]"
    by (simp add: lower_hex_pair hl)
  have s1: "store \<lparr>cells = map Some ds @ [None, None]\<rparr> (int (length ds)) h
              = Inr \<lparr>cells = map Some ds @ [Some h, None]\<rparr>"
    using store_at [of "map Some ds" "int (length ds)" None "[None]" h] by simp
  have s2: "store \<lparr>cells = map Some ds @ [Some h, None]\<rparr> (int (length ds) + 1) l
              = Inr \<lparr>cells = map Some ds @ [Some h, Some l]\<rparr>"
    using store_at [of "map Some ds @ [Some h]" "int (length ds) + 1" None "[]" l]
    by (simp add: nat_add_distrib)
  have add: "int_add (int (length ds) + 2) 2 = Inr (int (length ds) + 2 + 2)"
    using Cons.prems(2) by (intro int_add_ok) (simp_all add: INT_MIN_def)
  have hp: "heap e (int (length (map Some ds @ [Some h, Some l])) + int 2)"
    using Cons.prems(1) by simp
  have re: "change_dynamic_memory e \<lparr>cells = map Some ds @ [Some h, Some l]\<rparr>
              (int (length ds) + 2 + 2) st
              = Inr \<lparr>cells = map Some (ds @ [h, l]) @ [None, None]\<rparr>"
    using realloc_grow [OF hp, of st] by (simp add: numeral_2_eq_2)
  have ih: "file_loop e 2 cs (Some \<lparr>cells = map Some (ds @ [h, l]) @ [None, None]\<rparr>)
              (int (length (ds @ [h, l])) + 2) (int (length (ds @ [h, l]))) st
            = Inr (Some \<lparr>cells = map Some ((ds @ [h, l]) @ concat (map (\<lambda>c. hex_pair (of_char c)) cs))
                                  @ [None, None]\<rparr>,
                   int (length ((ds @ [h, l]) @ concat (map (\<lambda>c. hex_pair (of_char c)) cs))) + 2)"
    using Cons.prems by (intro Cons.IH) simp_all
  have ih': "file_loop e 2 cs (Some \<lparr>cells = map Some (ds @ [h, l]) @ [None, None]\<rparr>)
              (int (length ds) + 2 + 2) (int (length ds) + 2) st
            = Inr (Some \<lparr>cells = map Some (ds @ concat (map (\<lambda>c. hex_pair (of_char c)) (c # cs)))
                                  @ [None, None]\<rparr>,
                   int (length (ds @ concat (map (\<lambda>c. hex_pair (of_char c)) (c # cs)))) + 2)"
    using ih by (simp add: ac_simps hl)
  have nth: "[h, l] ! 0 = h" "[h, l] ! 1 = l" by simp_all
  have two: "(2::int) \<noteq> 1" by simp
  show ?case
    by (simp only: file_loop.simps Let_def xc nth s1 s2 add sum.case option.case mult_1 re ih'
        if_True if_False two simp_thms)
qed

lemma contents_one_unwritten:
  "contents e (Some \<lparr>cells = map Some xs @ [None]\<rparr>) = xs @ [junk e (length xs)]"
proof -
  have "map (\<lambda>i. case (map Some xs @ [None]) ! i of Some c \<Rightarrow> c | None \<Rightarrow> junk e i) [0..<length xs]
          = map (\<lambda>i. xs ! i) [0..<length xs]"
    by (rule map_cong) (simp_all add: nth_append)
  then show ?thesis
    by (simp add: contents_def map_nth nth_append)
qed

lemma contents_two_unwritten:
  "contents e (Some \<lparr>cells = map Some xs @ [None, None]\<rparr>)
     = xs @ [junk e (length xs), junk e (length xs + 1)]"
proof -
  have "map (\<lambda>i. case (map Some xs @ [None, None]) ! i of Some c \<Rightarrow> c | None \<Rightarrow> junk e i)
            [0..<length xs]
          = map (\<lambda>i. xs ! i) [0..<length xs]"
    by (rule map_cong) (simp_all add: nth_append)
  then show ?thesis
    by (simp add: contents_def map_nth nth_append)
qed

lemma read_stdin:
  assumes "\<forall>k. 0 < k \<and> k \<le> int (length (stdin e)) + 1 \<longrightarrow> heap e k"
    and "int (length (stdin e)) + 1 \<le> INT_MAX"
  shows "read_and_store_char_input e fl 1 st
           = Inr (\<lparr>cells = map Some (stdin e) @ [None]\<rparr>,
                  int (length (stdin e)) + 1,
                  if interactive_flag fl
                  then print_out (''[+] Hit CTRL-D twice to terminate input.'' @ [newline]) st
                  else st)"
proof -
  have h1: "heap e 1" using assms(1) by simp
  have "store_input e (stdin e) \<lparr>cells = map Some [] @ [None]\<rparr>
           (int (length ([] :: string)) + 1) (int (length ([] :: string))) st'
         = Inr (\<lparr>cells = map Some ([] @ stdin e) @ [None]\<rparr>,
                int (length ([] @ stdin e)) + 1)" for st'
    using assms by (intro store_input_run) simp_all
  then have "store_input e (stdin e) \<lparr>cells = [None]\<rparr> 1 0 st'
         = Inr (\<lparr>cells = map Some (stdin e) @ [None]\<rparr>,
                int (length (stdin e)) + 1)" for st'
    by simp
  then show ?thesis
    using h1 by (simp add: read_and_store_char_input_def allocate_dynamic_memory_def Let_def)
qed

lemma read_raw_file:
  assumes "files e filename = Some bytes"
    and "\<forall>k. 0 < k \<and> k \<le> int (length bytes) + 1 \<longrightarrow> heap e k"
    and "int (length bytes) + 1 \<le> INT_MAX"
  shows "read_from_file e filename 1 1 st
           = Inr (Some \<lparr>cells = map Some bytes @ [None]\<rparr>,
                  int (length bytes) + 1, st)"
proof -
  have h1: "heap e 1" using assms(2) by simp
  have "file_loop e 1 bytes (Some \<lparr>cells = map Some [] @ [None]\<rparr>)
           (int (length ([] :: string)) + 1) (int (length ([] :: string))) st
         = Inr (Some \<lparr>cells = map Some ([] @ bytes) @ [None]\<rparr>,
                int (length ([] @ bytes)) + 1)"
    using assms by (intro file_loop_raw) simp_all
  then have "file_loop e 1 bytes (Some \<lparr>cells = [None]\<rparr>) 1 0 st
         = Inr (Some \<lparr>cells = map Some bytes @ [None]\<rparr>, int (length bytes) + 1)"
    by simp
  then show ?thesis
    using h1 assms(1) by (simp add: read_from_file_def allocate_dynamic_memory_def)
qed

lemma read_hex_file:
  assumes "files e filename = Some bytes"
    and "\<forall>k. 0 < k \<and> k \<le> 2 * int (length bytes) + 2 \<longrightarrow> heap e k"
    and "2 * int (length bytes) + 2 \<le> INT_MAX"
  shows "read_from_file e filename 1 2 st
           = Inr (Some \<lparr>cells = map Some (concat (map (\<lambda>c. hex_pair (of_char c)) bytes))
                                 @ [None, None]\<rparr>,
                  2 * int (length bytes) + 2, st)"
proof -
  have h2: "heap e 2" using assms(2) by simp
  have add: "int_add 1 1 = Inr 2"
    by (simp add: int_add_def INT_MIN_def INT_MAX_def)
  have len: "length (concat (map (\<lambda>c. hex_pair (of_char c)) bytes)) = 2 * length bytes"
    by (induction bytes) (simp_all add: hex_pair_def)
  have "file_loop e 2 bytes (Some \<lparr>cells = map Some [] @ [None, None]\<rparr>)
           (int (length ([] :: string)) + 2) (int (length ([] :: string))) st
         = Inr (Some \<lparr>cells = map Some ([] @ concat (map (\<lambda>c. hex_pair (of_char c)) bytes))
                               @ [None, None]\<rparr>,
                int (length ([] @ concat (map (\<lambda>c. hex_pair (of_char c)) bytes))) + 2)"
    using assms by (intro file_loop_hex) simp_all
  then have "file_loop e 2 bytes (Some \<lparr>cells = [None, None]\<rparr>) 2 0 st
         = Inr (Some \<lparr>cells = map Some (concat (map (\<lambda>c. hex_pair (of_char c)) bytes))
                               @ [None, None]\<rparr>,
                2 * int (length bytes) + 2)"
    by (simp add: len)
  then show ?thesis
    using h2 assms(1) by (simp add: read_from_file_def allocate_dynamic_memory_def add numeral_2_eq_2)
qed

text \<open>
  C10. Under \<^verbatim>\<open>-x\<close>, \<^verbatim>\<open>main\<close> sets \<^verbatim>\<open>array_size\<close> to 1 and collects the input. When the
  allocations succeed and the sizes stay in the range of \<^verbatim>\<open>int\<close>, the block that comes
  back holds the stored characters followed by bytes that were never written, and
  \<^verbatim>\<open>array_size\<close> is the size of the whole block: the number of stored characters plus one
  for standard input and for a raw file, and plus two in hex-expand mode (two digits
  stored for each byte of the file). \<^verbatim>\<open>main\<close> hands this block and this length to the
  formatter, whose scan therefore reads the trailing one or two bytes as whatever the
  memory holds there.
\<close>

theorem collector_length:
  "(\<not> doHexDumpFile lv \<and> \<not> doReadFromFile lv
      \<and> (\<forall>k. 0 < k \<and> k \<le> int (length (stdin e)) + 1 \<longrightarrow> heap e k)
      \<and> int (length (stdin e)) + 1 \<le> INT_MAX \<longrightarrow>
      collect_input e fl lv st
        = Inr (Some \<lparr>cells = map Some (stdin e) @ [None]\<rparr>,
               int (length (stdin e)) + 1,
               (let st1 = width_notice fl lv
                            ''[*] Convert hexadecimal input to an escaped binary string.'' st
                in if interactive_flag fl
                   then print_out (''[+] Hit CTRL-D twice to terminate input.'' @ [newline]) st1
                   else st1)))
   \<and> (\<not> doHexDumpFile lv \<and> doReadFromFile lv \<and> files e (fread_filename lv) = Some bytes
      \<and> (\<forall>k. 0 < k \<and> k \<le> int (length bytes) + 1 \<longrightarrow> heap e k)
      \<and> int (length bytes) + 1 \<le> INT_MAX \<longrightarrow>
      collect_input e fl lv st
        = Inr (Some \<lparr>cells = map Some bytes @ [None]\<rparr>,
               int (length bytes) + 1,
               width_notice fl lv
                 ''[*] Convert hexadecimal input to an escaped binary string.'' st))
   \<and> (doHexDumpFile lv \<and> files e (fread_filename lv) = Some bytes
      \<and> (\<forall>k. 0 < k \<and> k \<le> 2 * int (length bytes) + 2 \<longrightarrow> heap e k)
      \<and> 2 * int (length bytes) + 2 \<le> INT_MAX \<longrightarrow>
      collect_input e fl lv st
        = Inr (Some \<lparr>cells = map Some (concat (map (\<lambda>c. hex_pair (of_char c)) bytes))
                              @ [None, None]\<rparr>,
               int (length (concat (map (\<lambda>c. hex_pair (of_char c)) bytes))) + 2,
               width_notice fl lv
                 ''[*] Convert hexadecimal input to an escaped binary string.'' st)
      \<and> length (concat (map (\<lambda>c. hex_pair (of_char c)) bytes)) = 2 * length bytes)
   \<and> contents e (Some \<lparr>cells = map Some xs @ [None]\<rparr>) = xs @ [junk e (length xs)]
   \<and> contents e (Some \<lparr>cells = map Some xs @ [None, None]\<rparr>)
       = xs @ [junk e (length xs), junk e (length xs + 1)]
   \<and> (parse_options e argv0 calls
             (\<lparr>verbose_flag = False, interactive_flag = False\<rparr>,
              ind\<lparr>doLimitBinaryStringWidth := False, output_lang := 0, string_width := 0\<rparr>,
              \<lparr>sout = [], serr = []\<rparr>) = Inr (fl, lv, st)
        \<and> \<not> (optind < argc \<or> argc = 1) \<and> doOutputHexEscapedString lv \<longrightarrow>
        main e argc argv0 calls optind ind =
          (case collect_input e fl lv st of
             Inl h \<Rightarrow> h
           | Inr (ptr_char_array, array_size, st1) \<Rightarrow>
               (case output_hex_escaped_string (char_signed e) fl (contents e ptr_char_array)
                       array_size (output_lang lv) (string_width lv) (sout st1) of
                  Inl f \<Rightarrow> Undefined f st1
                | Inr s \<Rightarrow> Exit EXIT_SUCCESS (st1\<lparr>sout := stdout s\<rparr>))))"
proof (intro conjI impI)
  assume "\<not> doHexDumpFile lv \<and> \<not> doReadFromFile lv
      \<and> (\<forall>k. 0 < k \<and> k \<le> int (length (stdin e)) + 1 \<longrightarrow> heap e k)
      \<and> int (length (stdin e)) + 1 \<le> INT_MAX"
  then show "collect_input e fl lv st
        = Inr (Some \<lparr>cells = map Some (stdin e) @ [None]\<rparr>,
               int (length (stdin e)) + 1,
               (let st1 = width_notice fl lv
                            ''[*] Convert hexadecimal input to an escaped binary string.'' st
                in if interactive_flag fl
                   then print_out (''[+] Hit CTRL-D twice to terminate input.'' @ [newline]) st1
                   else st1))"
    by (simp add: collect_input_def Let_def read_stdin)
next
  assume "\<not> doHexDumpFile lv \<and> doReadFromFile lv \<and> files e (fread_filename lv) = Some bytes
      \<and> (\<forall>k. 0 < k \<and> k \<le> int (length bytes) + 1 \<longrightarrow> heap e k)
      \<and> int (length bytes) + 1 \<le> INT_MAX"
  then show "collect_input e fl lv st
        = Inr (Some \<lparr>cells = map Some bytes @ [None]\<rparr>,
               int (length bytes) + 1,
               width_notice fl lv
                 ''[*] Convert hexadecimal input to an escaped binary string.'' st)"
    by (simp add: collect_input_def Let_def read_raw_file)
next
  have len: "length (concat (map (\<lambda>c. hex_pair (of_char c)) bytes)) = 2 * length bytes"
    by (induction bytes) (simp_all add: hex_pair_def)
  assume a: "doHexDumpFile lv \<and> files e (fread_filename lv) = Some bytes
      \<and> (\<forall>k. 0 < k \<and> k \<le> 2 * int (length bytes) + 2 \<longrightarrow> heap e k)
      \<and> 2 * int (length bytes) + 2 \<le> INT_MAX"
  then show "collect_input e fl lv st
        = Inr (Some \<lparr>cells = map Some (concat (map (\<lambda>c. hex_pair (of_char c)) bytes))
                              @ [None, None]\<rparr>,
               int (length (concat (map (\<lambda>c. hex_pair (of_char c)) bytes))) + 2,
               width_notice fl lv
                 ''[*] Convert hexadecimal input to an escaped binary string.'' st)"
    by (simp add: collect_input_def Let_def read_hex_file len)
  show "length (concat (map (\<lambda>c. hex_pair (of_char c)) bytes)) = 2 * length bytes"
    by (rule len)
next
  show "contents e (Some \<lparr>cells = map Some xs @ [None]\<rparr>) = xs @ [junk e (length xs)]"
    by (rule contents_one_unwritten)
  show "contents e (Some \<lparr>cells = map Some xs @ [None, None]\<rparr>)
       = xs @ [junk e (length xs), junk e (length xs + 1)]"
    by (rule contents_two_unwritten)
next
  assume "parse_options e argv0 calls
             (\<lparr>verbose_flag = False, interactive_flag = False\<rparr>,
              ind\<lparr>doLimitBinaryStringWidth := False, output_lang := 0, string_width := 0\<rparr>,
              \<lparr>sout = [], serr = []\<rparr>) = Inr (fl, lv, st)
        \<and> \<not> (optind < argc \<or> argc = 1) \<and> doOutputHexEscapedString lv"
  then show "main e argc argv0 calls optind ind =
          (case collect_input e fl lv st of
             Inl h \<Rightarrow> h
           | Inr (ptr_char_array, array_size, st1) \<Rightarrow>
               (case output_hex_escaped_string (char_signed e) fl (contents e ptr_char_array)
                       array_size (output_lang lv) (string_width lv) (sout st1) of
                  Inl f \<Rightarrow> Undefined f st1
                | Inr s \<Rightarrow> Exit EXIT_SUCCESS (st1\<lparr>sout := stdout s\<rparr>)))"
    by (simp add: main_def format_and_exit_def split: sum.splits prod.splits)
qed

theorem collector_length_witness:
  "collect_input (sample_env\<lparr>stdin := ''4142'', junk := (\<lambda>i. CHR ''4'')\<rparr>)
      \<lparr>verbose_flag = False, interactive_flag = False\<rparr>
      (sample_locals\<lparr>doOutputHexEscapedString := True\<rparr>) \<lparr>sout = [], serr = []\<rparr>
     = Inr (Some \<lparr>cells = map Some ''4142'' @ [None]\<rparr>, 5, \<lparr>sout = [], serr = []\<rparr>)
   \<and> collect_input (sample_env\<lparr>files := (\<lambda>p. if p = ''f'' then Some ''AB'' else None)\<rparr>)
      \<lparr>verbose_flag = False, interactive_flag = False\<rparr>
      (sample_locals\<lparr>doReadFromFile := True, fread_filename := ''f''\<rparr>) \<lparr>sout = [], serr = []\<rparr>
     = Inr (Some \<lparr>cells = map Some ''AB'' @ [None]\<rparr>, 3, \<lparr>sout = [], serr = []\<rparr>)
   \<and> collect_input (sample_env\<lparr>files := (\<lambda>p. if p = ''f'' then Some ''AB'' else None)\<rparr>)
      \<lparr>verbose_flag = False, interactive_flag = False\<rparr>
      (sample_locals\<lparr>doHexDumpFile := True, fread_filename := ''f''\<rparr>) \<lparr>sout = [], serr = []\<rparr>
     = Inr (Some \<lparr>cells = map Some ''4142'' @ [None, None]\<rparr>, 6,
            \<lparr>sout = [], serr = []\<rparr>)
   \<and> main (sample_env\<lparr>stdin := ''4142'', junk := (\<lambda>i. CHR ''4'')\<rparr>) 2 ''bstrings''
        [Returns 120 None (CHR ''x'')] 2 sample_locals
     = Exit 0 \<lparr>sout = [bslash] @ ''x41'' @ [bslash] @ ''x42'' @ [bslash] @ ''x4'' @ [newline],
               serr = []\<rparr>"
proof -
  let ?e1 = "sample_env\<lparr>stdin := ''4142'', junk := (\<lambda>i. CHR ''4'')\<rparr>"
  let ?e2 = "sample_env\<lparr>files := (\<lambda>p. if p = ''f'' then Some ''AB'' else None)\<rparr>"
  let ?fl = "\<lparr>verbose_flag = False, interactive_flag = False\<rparr>"
  let ?st = "\<lparr>sout = [], serr = []\<rparr>"
  have a: "collect_input ?e1 ?fl (sample_locals\<lparr>doOutputHexEscapedString := True\<rparr>) ?st
     = Inr (Some \<lparr>cells = map Some ''4142'' @ [None]\<rparr>, 5, ?st)"
    using collector_length [where e = ?e1 and fl = ?fl and st = ?st
        and lv = "sample_locals\<lparr>doOutputHexEscapedString := True\<rparr>"]
    by (simp add: sample_env_def sample_locals_def INT_MAX_def width_notice_def)
  have b: "collect_input ?e2 ?fl (sample_locals\<lparr>doReadFromFile := True, fread_filename := ''f''\<rparr>) ?st
     = Inr (Some \<lparr>cells = map Some ''AB'' @ [None]\<rparr>, 3, ?st)"
    using collector_length [where e = ?e2 and fl = ?fl and st = ?st and bytes = "''AB''"
        and lv = "sample_locals\<lparr>doReadFromFile := True, fread_filename := ''f''\<rparr>"]
    by (simp add: sample_env_def sample_locals_def INT_MAX_def width_notice_def)
  have c: "collect_input ?e2 ?fl (sample_locals\<lparr>doHexDumpFile := True, fread_filename := ''f''\<rparr>) ?st
     = Inr (Some \<lparr>cells = map Some ''4142'' @ [None, None]\<rparr>, 6, ?st)"
    using collector_length [where e = ?e2 and fl = ?fl and st = ?st and bytes = "''AB''"
        and lv = "sample_locals\<lparr>doHexDumpFile := True, fread_filename := ''f''\<rparr>"]
    by (simp add: sample_env_def sample_locals_def INT_MAX_def width_notice_def hex_pair_def)
  have p: "parse_options ?e1 ''bstrings'' [Returns 120 None (CHR ''x'')]
             (?fl, sample_locals\<lparr>doLimitBinaryStringWidth := False, output_lang := 0,
                                  string_width := 0\<rparr>, ?st)
           = Inr (?fl, sample_locals\<lparr>doOutputHexEscapedString := True\<rparr>, ?st)"
    by (simp add: option_case_def sample_locals_def)
  have f: "output_hex_escaped_string True ?fl (''4142'' @ ''4'') 5 0 0 []
             = Inr \<lparr>ai = 5, invalidhexchar = 0,
                    stdout = [bslash] @ ''x41'' @ [bslash] @ ''x42'' @ [bslash] @ ''x4'' @ [newline]\<rparr>"
    by (simp add: formatter_run width_ok_def INT_MIN_def INT_MAX_def hex_digits_filter hex_char_def
      invalid_bytes_def ignored_def EOF_def is_hex_digit_def char_to_int_def
      escaped_def wrap_marker_def preamble_def closing_def diagnostic_def)
  have cont: "contents ?e1 (Some \<lparr>cells = map Some ''4142'' @ [None]\<rparr>) = ''4142'' @ ''4''"
    using collector_length [where e = ?e1 and xs = "''4142''"]
    by (simp add: sample_env_def)
  let ?lv = "sample_locals\<lparr>doOutputHexEscapedString := True\<rparr>"
  have q: "\<not> ((2::int) < 2 \<or> (2::int) = 1)" by simp
  have d: "doOutputHexEscapedString ?lv" by simp
  note t = collector_length [where e = ?e1 and ?argv0.0 = "''bstrings''"
        and calls = "[Returns 120 None (CHR ''x'')]" and ind = sample_locals and fl = ?fl
        and lv = ?lv and st = ?st and optind = 2 and argc = 2]
  have "main ?e1 2 ''bstrings'' [Returns 120 None (CHR ''x'')] 2 sample_locals
     = (case collect_input ?e1 ?fl ?lv ?st of
             Inl h \<Rightarrow> h
           | Inr (ptr_char_array, array_size, st1) \<Rightarrow>
               (case output_hex_escaped_string (char_signed ?e1) ?fl (contents ?e1 ptr_char_array)
                       array_size (output_lang ?lv) (string_width ?lv) (sout st1) of
                  Inl f \<Rightarrow> Undefined f st1
                | Inr s \<Rightarrow> Exit EXIT_SUCCESS (st1\<lparr>sout := stdout s\<rparr>)))"
    by (rule t [THEN conjunct2, THEN conjunct2, THEN conjunct2, THEN conjunct2, THEN conjunct2,
          THEN mp, OF conjI [OF p conjI [OF q d]]])
  also have "\<dots> = (case output_hex_escaped_string (char_signed ?e1) ?fl (''4142'' @ ''4'')
                       5 (output_lang ?lv) (string_width ?lv) (sout ?st) of
                  Inl f \<Rightarrow> Undefined f ?st
                | Inr s \<Rightarrow> Exit EXIT_SUCCESS (?st\<lparr>sout := stdout s\<rparr>))"
    by (simp only: a cont sum.case prod.case)
  also have "\<dots> = Exit 0 \<lparr>sout = [bslash] @ ''x41'' @ [bslash] @ ''x42'' @ [bslash] @ ''x4'' @ [newline],
               serr = []\<rparr>"
    using f by (simp add: sample_env_def sample_locals_def EXIT_SUCCESS_def)
  finally have m: "main ?e1 2 ''bstrings'' [Returns 120 None (CHR ''x'')] 2 sample_locals
     = Exit 0 \<lparr>sout = [bslash] @ ''x41'' @ [bslash] @ ''x42'' @ [bslash] @ ''x4'' @ [newline],
               serr = []\<rparr>" .
  from a b c m show ?thesis by blast
qed

end
